theory Spec2Isabelle
  imports Complex_Main "HOL-Library.Log_Nat"
begin

section \<open>Python strings and builtins used by the pipeline\<close>

text \<open>
  Page text is modelled as an Isabelle \<open>string\<close>. The model covers ASCII text: the character
  classes below are the ASCII parts of Python's \<^verbatim>\<open>str.isspace\<close>, \<^verbatim>\<open>\d\<close>, \<^verbatim>\<open>\w\<close>
  and of \<^verbatim>\<open>str.lower\<close>.
\<close>

datatype py_error = ValueError | KeyError

definition is_space :: "char \<Rightarrow> bool" where
  \<comment> \<open>ASCII whitespace of \<^verbatim>\<open>str.strip()\<close> and \<^verbatim>\<open>\s\<close>: TAB, LF, VT, FF, CR, FS, GS, RS, US, SPACE\<close>
  "is_space c = (c \<in> set [CHR 0x09, CHR 0x0A, CHR 0x0B, CHR 0x0C, CHR 0x0D,
                            CHR 0x1C, CHR 0x1D, CHR 0x1E, CHR 0x1F, CHR 0x20])"

definition is_digit :: "char \<Rightarrow> bool" where
  "is_digit c = (c \<in> set ''0123456789'')"

definition upper_letters :: string where
  "upper_letters = ''ABCDEFGHIJKLMNOPQRSTUVWXYZ''"

definition lower_letters :: string where
  "lower_letters = ''abcdefghijklmnopqrstuvwxyz''"

definition is_word :: "char \<Rightarrow> bool" where
  \<comment> \<open>ASCII \<^verbatim>\<open>\w\<close>\<close>
  "is_word c = (is_digit c \<or> c \<in> set lower_letters \<or> c \<in> set upper_letters \<or> c = CHR ''_'')"

definition lower_char :: "char \<Rightarrow> char" where
  "lower_char c = (case map_of (zip upper_letters lower_letters) c of Some d \<Rightarrow> d | None \<Rightarrow> c)"

definition upper_char :: "char \<Rightarrow> char" where
  "upper_char c = (case map_of (zip lower_letters upper_letters) c of Some d \<Rightarrow> d | None \<Rightarrow> c)"

definition py_lower :: "string \<Rightarrow> string" where
  \<comment> \<open>\<^verbatim>\<open>s.lower()\<close>\<close>
  "py_lower s = map lower_char s"

definition py_upper :: "string \<Rightarrow> string" where
  \<comment> \<open>\<^verbatim>\<open>s.upper()\<close>\<close>
  "py_upper s = map upper_char s"

definition digit_val :: "char \<Rightarrow> nat" where
  "digit_val c = of_char c - 48"

definition dec_val :: "string \<Rightarrow> nat" where
  \<comment> \<open>value of a string of decimal digits; the empty string counts 0\<close>
  "dec_val ds = foldl (\<lambda>a c. 10 * a + digit_val c) 0 ds"

definition strip_chars :: "(char \<Rightarrow> bool) \<Rightarrow> string \<Rightarrow> string" where
  \<comment> \<open>\<^verbatim>\<open>s.strip(chars)\<close>: drop the leading and the trailing characters that are in the set\<close>
  "strip_chars P s = rev (dropWhile P (rev (dropWhile P s)))"

definition py_strip :: "string \<Rightarrow> string" where
  \<comment> \<open>\<^verbatim>\<open>s.strip()\<close>\<close>
  "py_strip s = strip_chars is_space s"

definition startswith :: "string \<Rightarrow> string \<Rightarrow> bool" where
  "startswith s p = (take (length p) s = p)"

definition endswith :: "string \<Rightarrow> string \<Rightarrow> bool" where
  "endswith s p = (length p \<le> length s \<and> drop (length s - length p) s = p)"

fun contains :: "string \<Rightarrow> string \<Rightarrow> bool" where
  \<comment> \<open>\<^verbatim>\<open>sub in s\<close>\<close>
  "contains [] sub = (sub = [])"
| "contains (c # cs) sub = (startswith (c # cs) sub \<or> contains cs sub)"

fun before_first :: "string \<Rightarrow> string \<Rightarrow> string" where
  \<comment> \<open>\<^verbatim>\<open>s.split(sep)[0]\<close> for a non-empty \<^verbatim>\<open>sep\<close>: the text before its first occurrence\<close>
  "before_first sep [] = []"
| "before_first sep (c # cs) = (if startswith (c # cs) sep then [] else c # before_first sep cs)"

fun split_acc :: "string \<Rightarrow> string \<Rightarrow> string list" where
  "split_acc cur [] = (if cur = [] then [] else [cur])"
| "split_acc cur (c # cs) =
     (if c = CHR 0x0D then
        (case cs of d # ds \<Rightarrow> if d = CHR 0x0A then cur # split_acc [] ds else cur # split_acc [] cs
                  | [] \<Rightarrow> [cur])
      else if c \<in> set [CHR 0x0A, CHR 0x0B, CHR 0x0C, CHR 0x1C, CHR 0x1D, CHR 0x1E] then cur # split_acc [] cs
      else split_acc (cur @ [c]) cs)"

definition splitlines :: "string \<Rightarrow> string list" where
  \<comment> \<open>\<^verbatim>\<open>s.splitlines()\<close>: breaks at LF, CR, CR LF, VT, FF, FS, GS, RS; no empty last line\<close>
  "splitlines s = split_acc [] s"

fun join_nl :: "string list \<Rightarrow> string" where
  \<comment> \<open>\<^verbatim>\<open>"\n".join(pages)\<close>\<close>
  "join_nl [] = []"
| "join_nl [p] = p"
| "join_nl (p # q # ps) = p @ CHR 0x0A # join_nl (q # ps)"

section \<open>Python floats\<close>

text \<open>
  A Python float is an IEEE 754 binary64 value: a finite value is given by the rational number
  it denotes (\<open>Fin 0\<close> is the positive zero), and the negative zero, the two infinities and
  NaN are values of their own. An operation gives the exact result rounded to the nearest
  binary64 value, a tie to the even significand (\<open>b64\<close>).
\<close>

datatype pyfloat = Fin rat | NegZero | PInf | NInf | NaN

definition rhe :: "rat \<Rightarrow> int" where
  \<comment> \<open>the nearest integer, a tie to the even one\<close>
  "rhe y = (let f = \<lfloor>y\<rfloor>; d = y - of_int f
            in if d < 1 / 2 then f else if d > 1 / 2 then f + 1 else if even f then f else f + 1)"

definition ilog2 :: "rat \<Rightarrow> int" where
  \<comment> \<open>for a positive \<open>x\<close>, the exponent \<open>e\<close> with \<open>2 ^ e \<le> x < 2 ^ (e + 1)\<close>\<close>
  "ilog2 x = (if 1 \<le> x then bitlen \<lfloor>x\<rfloor> - 1 else - bitlen (\<lceil>1 / x\<rceil> - 1))"

definition b64 :: "rat \<Rightarrow> pyfloat" where
  \<comment> \<open>rounding to binary64: 53 significant bits, the least exponent -1074 (subnormal numbers),
      overflow to an infinity at \<open>2 ^ 1024\<close>, underflow to the zero of the sign\<close>
  "b64 x =
     (if x = 0 then Fin 0
      else let q = max (ilog2 \<bar>x\<bar> - 52) (- 1074);
               r = of_int (rhe (x / 2 powi q)) * 2 powi q
           in if 2 powi 1024 \<le> \<bar>r\<bar> then (if 0 < x then PInf else NInf)
              else if r = 0 then (if 0 < x then Fin 0 else NegZero)
              else Fin r)"

fun fneg :: "pyfloat \<Rightarrow> pyfloat" where
  \<comment> \<open>\<^verbatim>\<open>-x\<close>\<close>
  "fneg (Fin x) = (if x = 0 then NegZero else Fin (- x))"
| "fneg NegZero = Fin 0"
| "fneg PInf = NInf"
| "fneg NInf = PInf"
| "fneg NaN = NaN"

fun fadd :: "pyfloat \<Rightarrow> pyfloat \<Rightarrow> pyfloat" where
  \<comment> \<open>\<^verbatim>\<open>x + y\<close>\<close>
  "fadd NaN y = NaN"
| "fadd x NaN = NaN"
| "fadd PInf NInf = NaN"
| "fadd NInf PInf = NaN"
| "fadd PInf y = PInf"
| "fadd x PInf = PInf"
| "fadd NInf y = NInf"
| "fadd x NInf = NInf"
| "fadd NegZero NegZero = NegZero"
| "fadd NegZero (Fin y) = Fin y"
| "fadd (Fin x) NegZero = Fin x"
| "fadd (Fin x) (Fin y) = b64 (x + y)"

definition fsub :: "pyfloat \<Rightarrow> pyfloat \<Rightarrow> pyfloat" where
  \<comment> \<open>\<^verbatim>\<open>x - y\<close>\<close>
  "fsub x y = fadd x (fneg y)"

fun fabs :: "pyfloat \<Rightarrow> pyfloat" where
  \<comment> \<open>\<^verbatim>\<open>abs(x)\<close>\<close>
  "fabs (Fin x) = Fin \<bar>x\<bar>"
| "fabs NegZero = Fin 0"
| "fabs PInf = PInf"
| "fabs NInf = PInf"
| "fabs NaN = NaN"

fun fgt :: "pyfloat \<Rightarrow> pyfloat \<Rightarrow> bool" where
  \<comment> \<open>\<^verbatim>\<open>x > y\<close>; a comparison with NaN is false\<close>
  "fgt NaN y = False"
| "fgt x NaN = False"
| "fgt x PInf = False"
| "fgt PInf y = True"
| "fgt NInf y = False"
| "fgt x NInf = True"
| "fgt NegZero NegZero = False"
| "fgt NegZero (Fin y) = (0 > y)"
| "fgt (Fin x) NegZero = (x > 0)"
| "fgt (Fin x) (Fin y) = (x > y)"

fun py_round2 :: "pyfloat \<Rightarrow> pyfloat" where
  \<comment> \<open>\<^verbatim>\<open>round(x, 2)\<close>: the value of the float rounded to the nearest multiple of 1/100, a tie to
      the even one, and that decimal rounded to binary64; a result zero keeps the sign;
      infinities and NaN round to themselves\<close>
  "py_round2 (Fin x) =
     (let r = of_int (rhe (x * 100)) / 100
      in if r = 0 then (if x < 0 then NegZero else Fin 0) else b64 r)"
| "py_round2 v = v"

definition is_cspace :: "char \<Rightarrow> bool" where
  \<comment> \<open>the whitespace that \<^verbatim>\<open>float()\<close> strips from an ASCII string: TAB, LF, VT, FF, CR, SPACE\<close>
  "is_cspace c = (c \<in> set [CHR 0x09, CHR 0x0A, CHR 0x0B, CHR 0x0C, CHR 0x0D, CHR 0x20])"

fun underscores_ok :: "char \<Rightarrow> string \<Rightarrow> bool" where
  \<comment> \<open>an underscore stands after a digit and before a digit; the first argument is the
      character before\<close>
  "underscores_ok prev [] = (prev \<noteq> CHR ''_'')"
| "underscores_ok prev (c # cs) =
     ((if c = CHR ''_'' then is_digit prev else (if prev = CHR ''_'' then is_digit c else True)) \<and>
      underscores_ok c cs)"

definition split_sign :: "string \<Rightarrow> bool \<times> string" where
  \<comment> \<open>an optional sign; True for the minus sign\<close>
  "split_sign s =
     (case s of
        c # r \<Rightarrow> if c = CHR ''-'' then (True, r) else if c = CHR ''+'' then (False, r) else (False, s)
      | [] \<Rightarrow> (False, s))"

definition parse_decimal :: "string \<Rightarrow> rat option" where
  \<comment> \<open>digits, an optional point and digits, with a digit on one side at least, and an optional
      exponent \<^verbatim>\<open>e\<close> or \<^verbatim>\<open>E\<close> with an optional sign and digits: the number denoted\<close>
  "parse_decimal u =
     (let ip = takeWhile is_digit u; r1 = dropWhile is_digit u;
          fp = (case r1 of c # t \<Rightarrow> if c = CHR ''.'' then takeWhile is_digit t else [] | [] \<Rightarrow> []);
          r2 = (case r1 of c # t \<Rightarrow> if c = CHR ''.'' then dropWhile is_digit t else r1 | [] \<Rightarrow> []);
          m = of_nat (dec_val (ip @ fp))
      in if ip @ fp = [] then None
         else (case r2 of
                 [] \<Rightarrow> Some (m * 10 powi (- int (length fp)))
               | c # t \<Rightarrow>
                   (let es = split_sign t
                    in if (c = CHR ''e'' \<or> c = CHR ''E'') \<and> snd es \<noteq> [] \<and> list_all is_digit (snd es)
                       then Some (m * 10 powi ((if fst es then - int (dec_val (snd es)) else int (dec_val (snd es)))
                                              - int (length fp)))
                       else None)))"

definition py_float :: "string \<Rightarrow> py_error + pyfloat" where
  \<comment> \<open>\<^verbatim>\<open>float(s)\<close> on an ASCII string: surrounding whitespace is stripped, underscores between
      digits are dropped, then a sign and \<^verbatim>\<open>inf\<close>, \<^verbatim>\<open>infinity\<close> or \<^verbatim>\<open>nan\<close> in any case, or a
      decimal number, which is rounded to binary64\<close>
  "py_float s =
     (let t = strip_chars is_cspace s;
          su = split_sign (filter (\<lambda>c. c \<noteq> CHR ''_'') t);
          w = py_lower (snd su)
      in if \<not> underscores_ok (CHR 0x00) t then Inl ValueError
         else if w = ''inf'' \<or> w = ''infinity'' then Inr (if fst su then NInf else PInf)
         else if w = ''nan'' then Inr NaN
         else (case parse_decimal (snd su) of
                 None \<Rightarrow> Inl ValueError
               | Some x \<Rightarrow> Inr (if fst su then fneg (b64 x) else b64 x)))"

section \<open>Money parsing\<close>

definition money_chars :: "char \<Rightarrow> bool" where
  \<comment> \<open>the character set of \<^verbatim>\<open>tok.strip("()$ ")\<close>\<close>
  "money_chars c = (c \<in> set ''()$ '')"

definition parse_money :: "string \<Rightarrow> py_error + pyfloat" where
  "parse_money tok =
     (let neg = (startswith (py_strip tok) ''('' \<and> endswith (py_strip tok) '')'');
          tok' = filter (\<lambda>c. c \<noteq> CHR '','') (strip_chars money_chars tok)
      in if tok' = [] \<or> tok' = ''-'' then Inr (Fin 0)
         else case py_float tok' of
                Inl e \<Rightarrow> Inl e
              | Inr v \<Rightarrow> Inr (if neg then fneg v else v))"

section \<open>The regular expressions of the pipeline\<close>

text \<open>
  Each compiled pattern of the source is modelled by a scanner that follows Python's
  leftmost, greedy, backtracking search on that pattern.
\<close>

fun year_at :: "string \<Rightarrow> bool" where
  \<comment> \<open>\<^verbatim>\<open>(?:19|20)\d{2}\b\<close> matches at the head of the string\<close>
  "year_at (a # b # c # d # rest) =
     (((a = CHR ''1'' \<and> b = CHR ''9'') \<or> (a = CHR ''2'' \<and> b = CHR ''0'')) \<and> is_digit c \<and> is_digit d \<and>
      (case rest of [] \<Rightarrow> True | e # _ \<Rightarrow> \<not> is_word e))"
| "year_at _ = False"

fun year_findall :: "bool \<Rightarrow> string \<Rightarrow> string list" where
  \<comment> \<open>\<^verbatim>\<open>YEAR_RE.findall\<close>; the flag says whether the character before the position is a word
      character, so that \<^verbatim>\<open>\b\<close> holds before a digit exactly when it is False. The search goes
      on after the four characters of a match.\<close>
  "year_findall pw [] = []"
| "year_findall pw (c # cs) =
     (if \<not> pw \<and> year_at (c # cs) then take 4 (c # cs) # year_findall True (drop 3 cs)
      else year_findall (is_word c) cs)"

definition YEAR_RE_findall :: "string \<Rightarrow> string list" where
  "YEAR_RE_findall s = year_findall False s"

fun comma_groups :: "string \<Rightarrow> nat" where
  \<comment> \<open>length of the longest match of \<^verbatim>\<open>(?:,\d{3})*\<close> at the head\<close>
  "comma_groups (c # d1 # d2 # d3 # r) =
     (if c = CHR '','' \<and> is_digit d1 \<and> is_digit d2 \<and> is_digit d3 then 4 + comma_groups r else 0)"
| "comma_groups _ = 0"

definition num_at :: "string \<Rightarrow> nat" where
  \<comment> \<open>length of the match of \<^verbatim>\<open>\(?\$?\s*-?\d{1,3}(?:,\d{3})*(?:\.\d+)?\)?\<close> at the head of the
      string, 0 when there is none (a match holds a digit). Every greedy choice before the
      digits is forced, and everything after the first digits is optional, so the greedy
      path is the match. The second alternative of \<^verbatim>\<open>NUM_RE\<close>, \<^verbatim>\<open>\b-?\d+(?:\.\d+)?\b\<close>, needs a digit
      or a minus and a digit at the position, where the first alternative already matches:
      it is never taken.\<close>
  "num_at s =
     (let a = (if take 1 s = ''('' then 1 else 0); s1 = drop a s;
          b = (if take 1 s1 = ''$'' then 1 else 0); s2 = drop b s1;
          w = length (takeWhile is_space s2); s3 = drop w s2;
          m = (if take 1 s3 = ''-'' then 1 else 0); s4 = drop m s3;
          d = length (takeWhile is_digit (take 3 s4)); s5 = drop d s4;
          g = comma_groups s5; s6 = drop g s5;
          f = (case s6 of c # r \<Rightarrow> if c = CHR ''.'' \<and> takeWhile is_digit r \<noteq> []
                                    then 1 + length (takeWhile is_digit r) else 0
                        | [] \<Rightarrow> 0); s7 = drop f s6;
          p = (if take 1 s7 = '')'' then 1 else 0)
      in if d = 0 then 0 else a + b + w + m + d + g + f + p)"

fun num_findall :: "string \<Rightarrow> string list" where
  \<comment> \<open>\<^verbatim>\<open>[m.group(0) for m in NUM_RE.finditer(line)]\<close>\<close>
  "num_findall [] = []"
| "num_findall (c # cs) =
     (case num_at (c # cs) of
        0 \<Rightarrow> num_findall cs
      | Suc n \<Rightarrow> take (Suc n) (c # cs) # num_findall (drop n cs))"

definition note_at :: "string \<Rightarrow> nat" where
  \<comment> \<open>length of the match of \<^verbatim>\<open>\(note\s*\d+\)\<close> (ignoring case) at the head, 0 when none\<close>
  "note_at s =
     (let r = drop 5 s; w = length (takeWhile is_space r); r1 = drop w r;
          d = length (takeWhile is_digit r1); r2 = drop d r1
      in if py_lower (take 5 s) = ''(note'' \<and> d \<noteq> 0 \<and> take 1 r2 = '')'' then 5 + w + d + 1 else 0)"

fun remove_notes :: "string \<Rightarrow> string" where
  \<comment> \<open>\<^verbatim>\<open>re.sub(r"\(note\s*\d+\)", "", s, flags=re.IGNORECASE)\<close>\<close>
  "remove_notes [] = []"
| "remove_notes (c # cs) =
     (case note_at (c # cs) of
        0 \<Rightarrow> c # remove_notes cs
      | Suc n \<Rightarrow> remove_notes (drop n cs))"

function collapse_ws :: "string \<Rightarrow> string" where
  \<comment> \<open>\<^verbatim>\<open>re.sub(r"\s+", " ", s)\<close>\<close>
  "collapse_ws [] = []"
| "collapse_ws (c # cs) =
     (if is_space c then CHR '' '' # collapse_ws (dropWhile is_space cs) else c # collapse_ws cs)"
  by pat_completeness auto
termination
  by (relation "measure length") (auto simp: less_Suc_eq_le length_dropWhile_le)

definition label_chars :: "char \<Rightarrow> bool" where
  \<comment> \<open>the ASCII characters of \<^verbatim>\<open>strip(" :-...")\<close>; the en and em dash are outside ASCII\<close>
  "label_chars c = (c \<in> set '' :-'')"

definition norm_label :: "string \<Rightarrow> string" where
  \<comment> \<open>the two \<^verbatim>\<open>replace\<close> calls rewrite a typographic apostrophe and an em dash, which ASCII text
      does not hold: they are the identity here\<close>
  "norm_label s = strip_chars label_chars (collapse_ws (remove_notes s))"

section \<open>Document fields\<close>

record date =
  year :: int
  month :: int
  day :: int

definition MONTHS :: "string list" where
  "MONTHS = [''JANUARY'', ''FEBRUARY'', ''MARCH'', ''APRIL'', ''MAY'', ''JUNE'', ''JULY'', ''AUGUST'',
             ''SEPTEMBER'', ''OCTOBER'', ''NOVEMBER'', ''DECEMBER'']"

definition days_in_month :: "int \<Rightarrow> int \<Rightarrow> int" where
  "days_in_month y m =
     (if m = 2 then (if y mod 4 = 0 \<and> (y mod 100 \<noteq> 0 \<or> y mod 400 = 0) then 29 else 28)
      else if m \<in> set [4, 6, 9, 11] then 30 else 31)"

definition py_date :: "int \<Rightarrow> int \<Rightarrow> int \<Rightarrow> py_error + date" where
  \<comment> \<open>\<^verbatim>\<open>datetime.date(y, m, d)\<close>\<close>
  "py_date y m d =
     (if 1 \<le> y \<and> y \<le> 9999 \<and> 1 \<le> m \<and> m \<le> 12 \<and> 1 \<le> d \<and> d \<le> days_in_month y m
      then Inr \<lparr>year = y, month = m, day = d\<rparr> else Inl ValueError)"

definition date_tail :: "string \<Rightarrow> string option" where
  \<comment> \<open>\<^verbatim>\<open>,?\s*((?:19|20)\d{2})\b\<close> at the head: the year\<close>
  "date_tail s =
     (let s1 = (if take 1 s = '','' then drop 1 s else s); s2 = dropWhile is_space s1
      in if year_at s2 then Some (take 4 s2) else None)"

definition date_day :: "string \<Rightarrow> (string \<times> string) option" where
  \<comment> \<open>\<^verbatim>\<open>(\d{1,2}),?\s*((?:19|20)\d{2})\b\<close> at the head: two digits of day first, then one\<close>
  "date_day s =
     (if s \<noteq> [] \<and> is_digit (hd s) then
        (case (if 2 \<le> length s \<and> is_digit (hd (tl s)) then date_tail (drop 2 s) else None) of
           Some y \<Rightarrow> Some (take 2 s, y)
         | None \<Rightarrow> map_option (Pair (take 1 s)) (date_tail (drop 1 s)))
      else None)"

definition date_with_month :: "string \<Rightarrow> int \<times> string \<Rightarrow> (int \<times> string \<times> string) option" where
  \<comment> \<open>the month name (ignoring case), \<^verbatim>\<open>\s+\<close>, then day and year\<close>
  "date_with_month s im =
     (let r = drop (length (snd im)) s
      in if py_upper (take (length (snd im)) s) = snd im \<and> r \<noteq> [] \<and> is_space (hd r)
         then map_option (\<lambda>dy. (fst im, fst dy, snd dy)) (date_day (dropWhile is_space r))
         else None)"

fun first_some :: "'a option list \<Rightarrow> 'a option" where
  "first_some [] = None"
| "first_some (None # xs) = first_some xs"
| "first_some (Some x # xs) = Some x"

definition date_at :: "string \<Rightarrow> (int \<times> string \<times> string) option" where
  \<comment> \<open>the alternatives of the month group in their order; the result carries
      \<^verbatim>\<open>MONTHS.index(month.upper()) + 1\<close>, the day and the year\<close>
  "date_at s = first_some (map (date_with_month s) (zip [1, 2, 3, 4, 5, 6, 7, 8, 9, 10, 11, 12] MONTHS))"

fun date_search :: "bool \<Rightarrow> string \<Rightarrow> (int \<times> string \<times> string) option" where
  \<comment> \<open>\<^verbatim>\<open>DATE_LONG_RE.search\<close>: the leftmost position after a word boundary where a date starts\<close>
  "date_search pw [] = None"
| "date_search pw (c # cs) =
     (case (if pw then None else date_at (c # cs)) of
        Some r \<Rightarrow> Some r
      | None \<Rightarrow> date_search (is_word c) cs)"

record desc =
  synonyms :: "string list"
  regex :: "string list"

record rollups =
  current_assets_keys :: "string list"
  singletons :: "string list"
  current_liabilities_keys :: "string list"
  loan_payable_key :: "string option"
  shareholders_equity_keys :: "string list"
  expenses_keys :: "string list"

text \<open>
  The taxonomy file and the libraries are not part of the source: they are parameters.
  \<open>canon\<close> is \<^verbatim>\<open>TAX["canon"]\<close> in the order of the file, \<open>company_markers\<close> is
  \<^verbatim>\<open>TAX.get("company_markers", [])\<close>, \<open>re_search rx s\<close> says whether
  \<^verbatim>\<open>re.search(rx, s, flags=re.IGNORECASE)\<close> finds a match, \<open>extractOne\<close> is rapidfuzz's
  \<^verbatim>\<open>process.extractOne\<close> with the scorer \<^verbatim>\<open>fuzz.token_sort_ratio\<close> (the chosen string and its
  score), and \<open>today_year\<close> is \<^verbatim>\<open>datetime.date.today().year\<close>.
\<close>

record env =
  canon :: "(string \<times> desc) list"
  company_markers :: "string list"
  re_search :: "string \<Rightarrow> string \<Rightarrow> bool"
  extractOne :: "string \<Rightarrow> string list \<Rightarrow> (string \<times> rat) option"
  today_year :: int

definition COMPANY_MARKERS :: "env \<Rightarrow> string list" where
  "COMPANY_MARKERS E = map py_lower (company_markers E)"

definition company_step :: "env \<Rightarrow> string option \<Rightarrow> string \<Rightarrow> string option" where
  \<comment> \<open>one turn of the loop over the lines of a page\<close>
  "company_step E company line =
     (let L = py_strip line
      in if list_ex (\<lambda>m. contains (py_lower L) m) (COMPANY_MARKERS E) \<and> length L > 5
         then (case company of
                 None \<Rightarrow> Some L
               | Some c \<Rightarrow> if length L > length c then Some L else company)
         else company)"

definition extract_company_and_period :: "env \<Rightarrow> string \<Rightarrow> py_error + (string option \<times> date option)" where
  "extract_company_and_period E text =
     (let company = foldl (company_step E) None (splitlines text)
      in case date_search False text of
           None \<Rightarrow> Inr (company, None)
         | Some mdy \<Rightarrow>
             (case py_date (int (dec_val (snd (snd mdy)))) (fst mdy) (int (dec_val (fst (snd mdy)))) of
                Inl e \<Rightarrow> Inl e
              | Inr p \<Rightarrow> Inr (company, Some p)))"

definition detect_currency :: "string \<Rightarrow> string" where
  \<comment> \<open>the pound and euro signs of the fallback are outside ASCII\<close>
  "detect_currency full_text =
     (case filter (\<lambda>code. contains (py_upper full_text) code)
             [''USD'', ''CAD'', ''EUR'', ''GBP'', ''AUD'', ''NZD'', ''JPY'', ''CHF'', ''SEK'', ''NOK'',
              ''DKK'', ''HKD'', ''SGD'', ''INR''] of
        code # _ \<Rightarrow> code
      | [] \<Rightarrow> ''AUTO'')"

section \<open>Canonical matcher\<close>

definition FUZZY_CHOICES :: "env \<Rightarrow> string list" where
  "FUZZY_CHOICES E =
     concat (map (\<lambda>kd. map py_lower (synonyms (snd kd)) @ map py_lower (regex (snd kd))) (canon E))"

definition CANON_KEY_FOR :: "env \<Rightarrow> string \<rightharpoonup> string" where
  \<comment> \<open>a later synonym overwrites an earlier equal one\<close>
  "CANON_KEY_FOR E =
     foldl (\<lambda>m kd. foldl (\<lambda>m s. m(py_lower s \<mapsto> fst kd)) m (synonyms (snd kd))) Map.empty (canon E)"

definition threshold :: rat where
  "threshold = 84"

definition match_canonical :: "env \<Rightarrow> string \<Rightarrow> string option" where
  "match_canonical E label =
     (let lab = py_lower label
      in case find (\<lambda>kd. list_ex (\<lambda>rx. re_search E rx lab) (regex (snd kd))) (canon E) of
           Some kd \<Rightarrow> Some (fst kd)
         | None \<Rightarrow>
             (case extractOne E lab (FUZZY_CHOICES E) of
                Some best \<Rightarrow> if snd best \<ge> threshold then CANON_KEY_FOR E (fst best) else None
              | None \<Rightarrow> None))"

section \<open>Value accumulator\<close>

type_synonym flat_map = "string \<rightharpoonup> pyfloat"
type_synonym buckets = "int \<rightharpoonup> flat_map"

definition change_map :: "(string \<times> string) list" where
  "change_map =
     [(''accounts receivable'', ''change_accounts_receivable''),
      (''investment tax credits receivable'', ''change_investment_tax_credits_receivable''),
      (''inventories'', ''change_inventories''),
      (''prepaid expenses'', ''change_prepaid_expenses''),
      (''accounts payable and accrued liabilities'', ''change_accounts_payable_and_accrued_liabilities''),
      (''government remittances payable'', ''change_government_remittances_payable''),
      (''deferred revenue'', ''change_deferred_revenue'')]"

definition falsy :: "string option \<Rightarrow> bool" where
  \<comment> \<open>\<^verbatim>\<open>not canon\<close>: None or the empty string\<close>
  "falsy c = (c = None \<or> c = Some [])"

definition resolve_label :: "env \<Rightarrow> string \<Rightarrow> string option" where
  \<comment> \<open>lines 146 to 160: the matcher, then the table of working-capital changes\<close>
  "resolve_label E label_part =
     (let c = match_canonical E label_part
      in if falsy c then
           (case find (\<lambda>sc. contains (py_lower label_part) (fst sc)) change_map of
              Some sc \<Rightarrow> Some (snd sc)
            | None \<Rightarrow> c)
         else c)"

fun money_values :: "string list \<Rightarrow> py_error + pyfloat list" where
  \<comment> \<open>\<^verbatim>\<open>[parse_money(x) for x in ...]\<close>: the first failing token raises\<close>
  "money_values [] = Inr []"
| "money_values (x # xs) =
     (case parse_money x of
        Inl e \<Rightarrow> Inl e
      | Inr v \<Rightarrow> (case money_values xs of Inl e \<Rightarrow> Inl e | Inr vs \<Rightarrow> Inr (v # vs)))"

definition py_max :: "int list \<Rightarrow> py_error + int" where
  \<comment> \<open>\<^verbatim>\<open>max(xs)\<close>; an empty list raises\<close>
  "py_max xs = (case xs of [] \<Rightarrow> Inl ValueError | x # r \<Rightarrow> Inr (fold max r x))"

definition py_min :: "int list \<Rightarrow> py_error + int" where
  "py_min xs = (case xs of [] \<Rightarrow> Inl ValueError | x # r \<Rightarrow> Inr (fold min r x))"

definition set_item :: "buckets \<Rightarrow> int \<Rightarrow> string \<Rightarrow> pyfloat \<Rightarrow> py_error + buckets" where
  \<comment> \<open>\<^verbatim>\<open>raw[y][k] = v\<close>; a year that is no key of \<^verbatim>\<open>raw\<close> raises\<close>
  "set_item raw y k v = (case raw y of None \<Rightarrow> Inl KeyError | Some m \<Rightarrow> Inr (raw(y \<mapsto> m(k \<mapsto> v))))"

definition accumulate :: "int list \<Rightarrow> int \<Rightarrow> buckets \<Rightarrow> string \<Rightarrow> pyfloat list \<Rightarrow> py_error + buckets" where
  \<comment> \<open>lines 168 to 173, for a non-empty list of values\<close>
  "accumulate years current_year_context raw k values =
     (if length values \<ge> 2 \<and> length years \<ge> 2 then
        (let v_curr = values ! (length values - 2); v_prev = last values
         in case py_max years of
              Inl e \<Rightarrow> Inl e
            | Inr mx \<Rightarrow>
                (case set_item raw mx k v_curr of
                   Inl e \<Rightarrow> Inl e
                 | Inr raw1 \<Rightarrow>
                     (case py_min years of
                        Inl e \<Rightarrow> Inl e
                      | Inr mn \<Rightarrow> set_item raw1 mn k v_prev)))
      else set_item raw current_year_context k (last values))"

definition process_line :: "env \<Rightarrow> int list \<Rightarrow> int \<Rightarrow> buckets \<Rightarrow> string \<Rightarrow> py_error + buckets" where
  \<comment> \<open>the body of the loop over the lines of a page; \<^verbatim>\<open>continue\<close> leaves \<^verbatim>\<open>raw\<close> as it is\<close>
  "process_line E years current_year_context raw line0 =
     (let line = py_strip line0
      in if line = [] then Inr raw
         else (case num_findall line of
                 [] \<Rightarrow> Inr raw
               | n0 # ns \<Rightarrow>
                   (let label_part = norm_label (py_strip (before_first n0 line))
                    in if label_part = [] then Inr raw
                       else (case resolve_label E label_part of
                               None \<Rightarrow> Inr raw
                             | Some k \<Rightarrow>
                                 if k = [] then Inr raw
                                 else (case money_values (filter (list_ex is_digit) (n0 # ns)) of
                                         Inl e \<Rightarrow> Inl e
                                       | Inr values \<Rightarrow>
                                           if values = [] then Inr raw
                                           else accumulate years current_year_context raw k values)))))"

fun process_lines :: "env \<Rightarrow> int list \<Rightarrow> int \<Rightarrow> buckets \<Rightarrow> string list \<Rightarrow> py_error + buckets" where
  "process_lines E years ctx raw [] = Inr raw"
| "process_lines E years ctx raw (l # ls) =
     (case process_line E years ctx raw l of
        Inl e \<Rightarrow> Inl e
      | Inr raw' \<Rightarrow> process_lines E years ctx raw' ls)"

definition page_years :: "string \<Rightarrow> int list" where
  "page_years t = map (\<lambda>y. int (dec_val y)) (YEAR_RE_findall t)"

fun process_pages :: "env \<Rightarrow> int list \<Rightarrow> int \<Rightarrow> buckets \<Rightarrow> string list \<Rightarrow> py_error + buckets" where
  \<comment> \<open>the loop over the pages, lines 129 to 173\<close>
  "process_pages E years ctx raw [] = Inr raw"
| "process_pages E years ctx raw (t # ts) =
     (case (if page_years t = [] then Inr ctx else py_max (page_years t)) of
        Inl e \<Rightarrow> Inl e
      | Inr ctx' \<Rightarrow>
          (case process_lines E years ctx' raw (splitlines t) of
             Inl e \<Rightarrow> Inl e
           | Inr raw' \<Rightarrow> process_pages E years ctx' raw' ts))"

definition detect_years :: "env \<Rightarrow> string \<Rightarrow> date option \<Rightarrow> int list" where
  \<comment> \<open>lines 122 to 124\<close>
  "detect_years E full_text period =
     (let years = sort (remdups (page_years full_text))
      in if years = [] then [case period of Some p \<Rightarrow> year p | None \<Rightarrow> today_year E] else years)"

fun detect_meta :: "env \<Rightarrow> string option \<Rightarrow> date option \<Rightarrow> string list
                     \<Rightarrow> py_error + (string option \<times> date option)" where
  \<comment> \<open>lines 107 to 117: company and period over the pages\<close>
  "detect_meta E company period [] = Inr (company, period)"
| "detect_meta E company period (t # ts) =
     (if falsy company \<or> period = None then
        (case extract_company_and_period E t of
           Inl e \<Rightarrow> Inl e
         | Inr cp \<Rightarrow>
             detect_meta E
               (if \<not> falsy (fst cp) \<and> (falsy company \<or> length (the (fst cp)) > length (the company))
                then fst cp else company)
               (if snd cp \<noteq> None \<and> period = None then snd cp else period) ts)
      else detect_meta E company period ts)"

definition parse_pdf_to_year_buckets ::
    "env \<Rightarrow> string list \<Rightarrow> py_error + (string \<times> date option \<times> string \<times> buckets)" where
  \<comment> \<open>the function on the page texts that the PDF reader hands over
      (\<^verbatim>\<open>page.extract_text() or ""\<close> for every page)\<close>
  "parse_pdf_to_year_buckets E pages_text =
     (case detect_meta E None None pages_text of
        Inl e \<Rightarrow> Inl e
      | Inr cp \<Rightarrow>
          (let full_text = join_nl pages_text;
               doc_currency = detect_currency full_text;
               years = detect_years E full_text (snd cp);
               raw = (\<lambda>y. if y \<in> set years then Some Map.empty else None)
           in case py_max years of
                Inl e \<Rightarrow> Inl e
              | Inr ctx \<Rightarrow>
                  (case process_pages E years ctx raw pages_text of
                     Inl e \<Rightarrow> Inl e
                   | Inr raw' \<Rightarrow>
                       Inr (if falsy (fst cp) then ''UNKNOWN'' else the (fst cp), snd cp, doc_currency, raw'))))"

section \<open>Rollup builder and diagnostics\<close>

text \<open>
  The payload is a dictionary with fixed keys: a record for every level. A dictionary built
  from a list of keys is an association list in insertion order. Two built-ins are parameters:
  \<open>float_str\<close>, the formatting of a float in an f-string, and \<open>py_sum\<close>, the built-in \<^verbatim>\<open>sum\<close>
  over floats, whose summation method depends on the version of the interpreter.
\<close>

record group =
  components :: "(string \<times> pyfloat) list"
  total' :: pyfloat

record assets_block =
  current_assets :: group
  investment_in_xyz_ltd :: pyfloat
  equipment_and_software :: pyfloat
  intangible_assets :: pyfloat
  total_assets :: pyfloat

record liabilities_block =
  current_liabilities :: group
  loan_payable :: pyfloat
  shareholders_equity :: group
  total_liabilities_and_equity :: pyfloat

record balance_sheet_block =
  assets :: assets_block
  liabilities_and_equity :: liabilities_block

record rollforward =
  beginning :: pyfloat
  dividends :: pyfloat
  end' :: pyfloat

record income_block =
  revenue :: pyfloat
  expenses :: group
  income_before_income_taxes :: pyfloat
  income_taxes :: pyfloat
  net_income :: pyfloat
  retained_earnings_rollforward :: rollforward

record cash_block =
  operating_activities :: group
  investing_activities :: group
  financing_activities :: group
  increase_in_cash :: pyfloat
  cash_beginning :: pyfloat
  cash_end :: pyfloat

record diag =
  checks :: "(string \<times> pyfloat) list"
  warnings :: "string list"

record statement =
  company :: string
  fiscal_year :: int
  period_end :: "string option"
  currency :: string
  balance_sheet :: balance_sheet_block
  income_statement :: income_block
  cash_flows :: cash_block

record payload = statement +
  diagnostics_block :: diag

definition diagnostics :: "(pyfloat \<Rightarrow> string) \<Rightarrow> 'a statement_scheme \<Rightarrow> diag" where
  "diagnostics float_str p =
     (let bs = balance_sheet p; is = income_statement p; cf = cash_flows p;
          A = total_assets (assets bs);
          LQ = total' (current_liabilities (liabilities_and_equity bs));
          LP = loan_payable (liabilities_and_equity bs);
          EQ = total' (shareholders_equity (liabilities_and_equity bs));
          beg = beginning (retained_earnings_rollforward is);
          ni = net_income is;
          dv = dividends (retained_earnings_rollforward is);
          en = end' (retained_earnings_rollforward is);
          cb = cash_beginning cf; inc = increase_in_cash cf; ce = cash_end cf;
          rev = revenue is; exp = total' (expenses is); ibt = income_before_income_taxes is;
          cs = [(''balance_sheet_identity'', py_round2 (fsub A (fadd (fadd LQ LP) EQ))),
                (''retained_earnings_recon'', py_round2 (fsub (fadd (fadd beg ni) dv) en)),
                (''cash_bridge'', py_round2 (fsub (fadd cb inc) ce)),
                (''ibt_vs_rev_minus_exp'', py_round2 (fsub (fsub rev exp) ibt))]
      in \<lparr>checks = cs,
          warnings = map (\<lambda>kv. fst kv @ '' mismatch: '' @ float_str (snd kv))
                         (filter (\<lambda>kv. fgt (fabs (snd kv)) (Fin 1)) cs)\<rparr>)"

definition g :: "flat_map \<Rightarrow> string \<Rightarrow> pyfloat" where
  \<comment> \<open>\<^verbatim>\<open>float(r.get(k, 0.0))\<close>; \<^verbatim>\<open>float\<close> of a float is that float\<close>
  "g r k = (case r k of None \<Rightarrow> Fin 0 | Some v \<Rightarrow> v)"

definition sum_keys :: "(pyfloat list \<Rightarrow> pyfloat) \<Rightarrow> flat_map \<Rightarrow> string list \<Rightarrow> pyfloat" where
  \<comment> \<open>\<^verbatim>\<open>float(sum(g(k) for k in keys))\<close>\<close>
  "sum_keys py_sum r keys = py_sum (map (g r) keys)"

definition dict_of :: "flat_map \<Rightarrow> string list \<Rightarrow> (string \<times> pyfloat) list" where
  \<comment> \<open>\<^verbatim>\<open>{k: g(k) for k in keys}\<close>: a key that comes twice stays at its first place\<close>
  "dict_of r keys = map (\<lambda>k. (k, g r k)) (rev (remdups (rev keys)))"

fun pad_dec :: "nat \<Rightarrow> nat \<Rightarrow> string" where
  \<comment> \<open>the last \<open>w\<close> decimal digits of a number\<close>
  "pad_dec 0 n = []"
| "pad_dec (Suc w) n = pad_dec w (n div 10) @ [''0123456789'' ! (n mod 10)]"

definition isoformat :: "date \<Rightarrow> string" where
  "isoformat d = pad_dec 4 (nat (year d)) @ ''-'' @ pad_dec 2 (nat (month d)) @ ''-'' @ pad_dec 2 (nat (day d))"

definition rollup_payload ::
    "rollups \<Rightarrow> (pyfloat list \<Rightarrow> pyfloat) \<Rightarrow> (pyfloat \<Rightarrow> string) \<Rightarrow>
     string \<Rightarrow> date option \<Rightarrow> string \<Rightarrow> int \<Rightarrow> flat_map \<Rightarrow> payload" where
  "rollup_payload ROLLUPS py_sum float_str company0 period currency0 year0 r =
     (let ca_keys = current_assets_keys ROLLUPS;
          current_assets_total = sum_keys py_sum r ca_keys;
          total_assets0 = fadd current_assets_total (sum_keys py_sum r (singletons ROLLUPS));
          cl_keys = current_liabilities_keys ROLLUPS;
          current_liab_total = sum_keys py_sum r cl_keys;
          loan_payable0 = (case loan_payable_key ROLLUPS of Some k \<Rightarrow> g r k | None \<Rightarrow> Fin 0);
          sh_keys = shareholders_equity_keys ROLLUPS;
          shareholders_total = sum_keys py_sum r sh_keys;
          total_liab_equity = fadd (fadd current_liab_total loan_payable0) shareholders_total;
          exp_keys = expenses_keys ROLLUPS;
          expenses_total = sum_keys py_sum r exp_keys;
          p = \<lparr>company = company0,
               fiscal_year = year0,
               period_end = map_option isoformat period,
               currency = currency0,
               balance_sheet =
                 \<lparr>assets =
                    \<lparr>current_assets = \<lparr>components = dict_of r ca_keys, total' = py_round2 current_assets_total\<rparr>,
                     investment_in_xyz_ltd = g r ''investment_in_xyz_ltd'',
                     equipment_and_software = g r ''equipment_and_software'',
                     intangible_assets = g r ''intangible_assets'',
                     total_assets = py_round2 total_assets0\<rparr>,
                  liabilities_and_equity =
                    \<lparr>current_liabilities = \<lparr>components = dict_of r cl_keys, total' = py_round2 current_liab_total\<rparr>,
                     loan_payable = py_round2 loan_payable0,
                     shareholders_equity = \<lparr>components = dict_of r sh_keys, total' = py_round2 shareholders_total\<rparr>,
                     total_liabilities_and_equity = py_round2 total_liab_equity\<rparr>\<rparr>,
               income_statement =
                 \<lparr>revenue = g r ''revenue'',
                  expenses = \<lparr>components = dict_of r exp_keys, total' = py_round2 expenses_total\<rparr>,
                  income_before_income_taxes = g r ''income_before_income_taxes'',
                  income_taxes = g r ''income_taxes'',
                  net_income = g r ''net_income'',
                  retained_earnings_rollforward =
                    \<lparr>beginning = g r ''retained_earnings_beginning'',
                     dividends = g r ''dividends'',
                     end' = g r ''retained_earnings_end_of_year''\<rparr>\<rparr>,
               cash_flows =
                 \<lparr>operating_activities =
                    \<lparr>components =
                       [(''net_income'', g r ''net_income''),
                        (''adjustments_amortization_tangible'', g r ''amortization_of_tangible_assets''),
                        (''adjustments_amortization_intangible'', g r ''amortization_of_intangible_assets''),
                        (''change_accounts_receivable'', g r ''change_accounts_receivable''),
                        (''change_investment_tax_credits_receivable'', g r ''change_investment_tax_credits_receivable''),
                        (''change_inventories'', g r ''change_inventories''),
                        (''change_prepaid_expenses'', g r ''change_prepaid_expenses''),
                        (''change_accounts_payable_and_accrued_liabilities'',
                           g r ''change_accounts_payable_and_accrued_liabilities''),
                        (''change_government_remittances_payable'', g r ''change_government_remittances_payable''),
                        (''change_deferred_revenue'', g r ''change_deferred_revenue'')],
                     total' = py_round2
                       (fadd (fadd (fadd (fadd (fadd (fadd (fadd (fadd (fadd
                          (g r ''net_income'') (g r ''amortization_of_tangible_assets''))
                          (g r ''amortization_of_intangible_assets'')) (g r ''change_accounts_receivable''))
                          (g r ''change_investment_tax_credits_receivable'')) (g r ''change_inventories''))
                          (g r ''change_prepaid_expenses'')) (g r ''change_accounts_payable_and_accrued_liabilities''))
                          (g r ''change_government_remittances_payable'')) (g r ''change_deferred_revenue''))\<rparr>,
                  investing_activities =
                    \<lparr>components = [(''purchase_of_property_and_equipment'', g r ''purchase_of_property_and_equipment'')],
                     total' = py_round2 (g r ''purchase_of_property_and_equipment'')\<rparr>,
                  financing_activities =
                    \<lparr>components =
                       [(''repayment_of_shareholder_loan'', g r ''repayment_of_shareholder_loan''),
                        (''dividends_paid'', g r ''dividends_paid''),
                        (''repayment_of_loan_payable'', g r ''repayment_of_loan_payable''),
                        (''redemption_of_capital_stock'', g r ''redemption_of_capital_stock'')],
                     total' = py_round2
                       (fadd (fadd (fadd (g r ''repayment_of_shareholder_loan'') (g r ''dividends_paid''))
                          (g r ''repayment_of_loan_payable'')) (g r ''redemption_of_capital_stock''))\<rparr>,
                  increase_in_cash = g r ''increase_in_cash'',
                  cash_beginning = g r ''cash_beginning'',
                  cash_end = g r ''cash_end''\<rparr>\<rparr>
      in statement.extend p (payload.fields (diagnostics float_str p)))"

section \<open>The words of the specification, and fixtures\<close>

text \<open>The ten component keys the specification names for the operating total.\<close>

definition operating_keys :: "string list" where
  "operating_keys =
     [''net_income'', ''amortization_of_tangible_assets'', ''amortization_of_intangible_assets'',
      ''change_accounts_receivable'', ''change_investment_tax_credits_receivable'', ''change_inventories'',
      ''change_prepaid_expenses'', ''change_accounts_payable_and_accrued_liabilities'',
      ''change_government_remittances_payable'', ''change_deferred_revenue'']"

text \<open>A fixture taxonomy and a fixture flat map, for the concrete instances.\<close>

definition fixture_rollups :: rollups where
  "fixture_rollups =
     \<lparr>current_assets_keys = [''cash'', ''accounts_receivable''],
      singletons = [''equipment_and_software''],
      current_liabilities_keys = [''accounts_payable_and_accrued_liabilities''],
      loan_payable_key = Some ''loan_payable'',
      shareholders_equity_keys = [''capital_stock'', ''retained_earnings_end_of_year''],
      expenses_keys = [''salaries'', ''rent'']\<rparr>"

definition fixture_flat :: flat_map where
  "fixture_flat =
     [''net_income'' \<mapsto> Fin 1000, ''amortization_of_tangible_assets'' \<mapsto> Fin 25,
      ''change_inventories'' \<mapsto> Fin (- 50), ''cash'' \<mapsto> Fin 500, ''capital_stock'' \<mapsto> Fin 500]"

text \<open>
  The sum of a list of floats by the operator \<^verbatim>\<open>+\<close>, from left to right, as Python evaluates
  \<^verbatim>\<open>a + b + c\<close>; and \<^verbatim>\<open>math.isfinite\<close>.
\<close>

fun float_chain :: "pyfloat list \<Rightarrow> pyfloat" where
  "float_chain [] = Fin 0"
| "float_chain (x # xs) = foldl fadd x xs"

fun isfinite :: "pyfloat \<Rightarrow> bool" where
  "isfinite (Fin x) = True"
| "isfinite NegZero = True"
| "isfinite PInf = False"
| "isfinite NInf = False"
| "isfinite NaN = False"

text \<open>
  A fixture payload with given total assets, current liabilities total, loan payable and
  shareholders' equity total, and 0.0 in every other amount; a summation for the built-in
  \<^verbatim>\<open>sum\<close>; and a formatting of floats that knows the float 2.0 only.
\<close>

definition balance_fixture :: "pyfloat \<Rightarrow> pyfloat \<Rightarrow> pyfloat \<Rightarrow> pyfloat \<Rightarrow> statement" where
  "balance_fixture A LQ LP EQ =
     \<lparr>company = ''Acme Inc.'',
      fiscal_year = 2023,
      period_end = None,
      currency = ''USD'',
      balance_sheet =
        \<lparr>assets =
           \<lparr>current_assets = \<lparr>components = [], total' = A\<rparr>,
            investment_in_xyz_ltd = Fin 0,
            equipment_and_software = Fin 0,
            intangible_assets = Fin 0,
            total_assets = A\<rparr>,
         liabilities_and_equity =
           \<lparr>current_liabilities = \<lparr>components = [], total' = LQ\<rparr>,
            loan_payable = LP,
            shareholders_equity = \<lparr>components = [], total' = EQ\<rparr>,
            total_liabilities_and_equity = A\<rparr>\<rparr>,
      income_statement =
        \<lparr>revenue = Fin 0,
         expenses = \<lparr>components = [], total' = Fin 0\<rparr>,
         income_before_income_taxes = Fin 0,
         income_taxes = Fin 0,
         net_income = Fin 0,
         retained_earnings_rollforward = \<lparr>beginning = Fin 0, dividends = Fin 0, end' = Fin 0\<rparr>\<rparr>,
      cash_flows =
        \<lparr>operating_activities = \<lparr>components = [], total' = Fin 0\<rparr>,
         investing_activities = \<lparr>components = [], total' = Fin 0\<rparr>,
         financing_activities = \<lparr>components = [], total' = Fin 0\<rparr>,
         increase_in_cash = Fin 0,
         cash_beginning = Fin 0,
         cash_end = Fin 0\<rparr>\<rparr>"

definition fixture_sum :: "pyfloat list \<Rightarrow> pyfloat" where
  \<comment> \<open>a fixture for the built-in sum: plain additions from 0.0, from left to right\<close>
  "fixture_sum vs = foldl fadd (Fin 0) vs"

definition fixture_str :: "pyfloat \<Rightarrow> string" where
  "fixture_str v = (if v = Fin 2 then ''2.0'' else ''?'')"

text \<open>
  A fixture environment: a small taxonomy, patterns that are literal strings (so that the
  search is a substring test that ignores case) and a fuzzy matcher that always answers with
  the last choice at score 100.
\<close>

definition fixture_env :: env where
  "fixture_env =
     \<lparr>canon =
        [(''cash'', \<lparr>synonyms = [''cash'', ''cash and cash equivalents''], regex = [''cash'']\<rparr>),
         (''accounts_payable_and_accrued_liabilities'',
            \<lparr>synonyms = [''accounts payable and accrued liabilities''], regex = [''accounts payable'']\<rparr>),
         (''dividends'', \<lparr>synonyms = [''Dividends''], regex = []\<rparr>)],
      company_markers = [''Inc'', ''Ltd''],
      re_search = (\<lambda>rx s. contains (py_lower s) (py_lower rx)),
      extractOne = (\<lambda>q choices. if choices = [] then None else Some (last choices, 100)),
      today_year = 2024\<rparr>"

text \<open>Reading an entry of the year buckets a run returns, and a fixture bucket map.\<close>

definition lookup_bucket :: "py_error + buckets \<Rightarrow> int \<Rightarrow> string \<Rightarrow> pyfloat option" where
  "lookup_bucket res y k =
     (case res of Inl e \<Rightarrow> None | Inr raw \<Rightarrow> (case raw y of None \<Rightarrow> None | Some m \<Rightarrow> m k))"

definition fixture_raw :: buckets where
  "fixture_raw = (\<lambda>y. if y \<in> set [2022, 2023] then Some Map.empty else None)"

text \<open>
  The shape of a year token, and its occurrence in a text between word boundaries; the flag
  of \<open>occurs\<close> says whether a word character stands before the text.
\<close>

definition year_tok :: "string \<Rightarrow> bool" where
  "year_tok tok = (length tok = 4 \<and> (take 2 tok = ''19'' \<or> take 2 tok = ''20'') \<and>
                   is_digit (tok ! 2) \<and> is_digit (tok ! 3))"

definition occurs :: "bool \<Rightarrow> string \<Rightarrow> string \<Rightarrow> bool" where
  "occurs pw s tok = (\<exists>pre suf. s = pre @ tok @ suf \<and> year_tok tok \<and>
                        (if pre = [] then \<not> pw else \<not> is_word (last pre)) \<and>
                        (suf = [] \<or> \<not> is_word (hd suf)))"

text \<open>
  The years of a text in the words of the specification: the values of its 4-digit tokens
  (four digits with no word character before or after them) that lie in 1900 to 2099.
\<close>

definition year_tokens :: "string \<Rightarrow> int set" where
  "year_tokens text =
     {y. \<exists>pre tok suf. text = pre @ tok @ suf \<and> length tok = 4 \<and> list_all is_digit tok \<and>
           (pre = [] \<or> \<not> is_word (last pre)) \<and> (suf = [] \<or> \<not> is_word (hd suf)) \<and>
           y = int (dec_val tok) \<and> 1900 \<le> y \<and> y \<le> 2099}"

text \<open>A fixture page.\<close>

definition fixture_page :: string where
  "fixture_page = ''As at 2023 and 2022'' @ [CHR 0x0A] @ ''Cash $ 10,000 8,000''"

text \<open>The fixture environment with a fuzzy matcher that finds nothing.\<close>

definition fixture_env_regex :: env where
  "fixture_env_regex = fixture_env\<lparr>extractOne := (\<lambda>q choices. None)\<rparr>"

section \<open>Properties of the scanners\<close>

text \<open>
  Where the second alternative of \<^verbatim>\<open>NUM_RE\<close> could start, at a digit or at a minus sign before
  a digit, the first alternative matches.
\<close>

lemma digit_not_prefix:
  assumes "is_digit c"
  shows "c \<noteq> CHR ''(''" "c \<noteq> CHR ''$''" "c \<noteq> CHR ''-''" "\<not> is_space c"
  using assms by (auto simp: is_digit_def is_space_def)

lemma num_at_digit:
  assumes "is_digit c"
  shows "0 < num_at (c # cs)"
proof -
  have "takeWhile is_digit (take 3 (c # cs)) \<noteq> []"
    using assms by (simp add: take_Suc_conv_app_nth numeral_3_eq_3)
  then show ?thesis
    using digit_not_prefix [OF assms] by (simp add: num_at_def Let_def)
qed

lemma num_at_minus_digit:
  assumes "is_digit d"
  shows "0 < num_at (CHR ''-'' # d # cs)"
proof -
  have "takeWhile is_digit (take 3 (d # cs)) \<noteq> []"
    using assms by (simp add: numeral_3_eq_3)
  then show ?thesis
    by (simp add: num_at_def Let_def is_space_def)
qed

section \<open>Properties of the floats\<close>

text \<open>
  An integer below \<open>2 ^ 53\<close> is a binary64 value, so that rounding leaves it as it is; the
  integer \<open>2 ^ 53 + 1\<close> is not, and rounds to \<open>2 ^ 53\<close>.
\<close>

lemma rhe_of_int: "rhe (of_int m) = m"
  by (simp add: rhe_def)

lemma ilog2_int:
  assumes "0 < n"
  shows "ilog2 (of_int n) = bitlen n - 1"
proof -
  have "1 \<le> (of_int n :: rat)" using assms by simp
  then show ?thesis by (simp add: ilog2_def)
qed

lemma bitlen_le_53:
  assumes "0 < n" "n < 2 ^ 53"
  shows "1 \<le> bitlen n" "bitlen n \<le> 53"
proof -
  from bitlen_bounds [OF assms(1)] have b: "2 ^ nat (bitlen n - 1) \<le> n" by simp
  show "1 \<le> bitlen n" using assms(1) by (simp add: bitlen_alt_def)
  show "bitlen n \<le> 53"
  proof (rule ccontr)
    assume "\<not> bitlen n \<le> 53"
    then have "53 \<le> nat (bitlen n - 1)" by simp
    then have "(2 :: int) ^ 53 \<le> 2 ^ nat (bitlen n - 1)" by (intro power_increasing) simp_all
    with b assms(2) show False by linarith
  qed
qed

lemma b64_pos_int:
  assumes "0 < n" "n < 2 ^ 53"
  shows "b64 (of_int n) = Fin (of_int n)"
proof -
  define e where "e = bitlen n - 1"
  have e: "0 \<le> e" "e \<le> 52" using bitlen_le_53 [OF assms] by (simp_all add: e_def)
  define k where "k = nat (52 - e)"
  have q: "max (ilog2 \<bar>of_int n\<bar> - 52) (- 1074) = - int k"
    using assms(1) e by (simp add: ilog2_int [OF assms(1)] e_def [symmetric] k_def)
  have p: "(2 :: rat) powi (- int k) = 1 / 2 ^ k"
    by (simp add: power_int_minus field_simps)
  have d: "of_int n / (2 :: rat) powi (- int k) = of_int (n * 2 ^ k)"
    by (simp add: p)
  have r: "of_int (rhe (of_int n / 2 powi (- int k))) * (2 :: rat) powi (- int k) = of_int n"
    unfolding d rhe_of_int by (simp add: p)
  have lt: "\<bar>of_int n :: rat\<bar> < 2 powi 1024"
  proof -
    have "(of_int n :: rat) < of_int (2 ^ 53)" using assms(2) by (simp only: of_int_less_iff)
    also have "\<dots> \<le> 2 powi 1024" by simp
    finally show ?thesis using assms(1) by simp
  qed
  have nz: "(of_int n :: rat) \<noteq> 0" using assms(1) by simp
  show ?thesis
    unfolding b64_def Let_def q r using lt nz by simp
qed

lemma b64_numeral:
  assumes "(numeral w :: int) < 2 ^ 53"
  shows "b64 (numeral w) = Fin (numeral w)"
  using b64_pos_int [of "numeral w"] assms by simp

lemma b64_0: "b64 0 = Fin 0"
  by (simp add: b64_def)

lemma b64_1: "b64 1 = Fin 1"
  using b64_pos_int [of 1] by simp

lemma py_round2_0: "py_round2 (Fin 0) = Fin 0"
  by (simp add: rhe_def)

lemma py_round2_pos_int:
  assumes "0 < n" "n < 2 ^ 53"
  shows "py_round2 (Fin (of_int n)) = Fin (of_int n)"
proof -
  have "rhe (of_int n * 100) = n * 100" using rhe_of_int [of "n * 100"] by simp
  moreover have "(of_int (n * 100) :: rat) / 100 = of_int n" by simp
  moreover have "(of_int n :: rat) \<noteq> 0" using assms(1) by simp
  ultimately show ?thesis
    unfolding py_round2.simps Let_def using b64_pos_int [OF assms] by simp
qed

lemma py_round2_numeral:
  assumes "(numeral w :: int) < 2 ^ 53"
  shows "py_round2 (Fin (numeral w)) = Fin (numeral w)"
  using py_round2_pos_int [of "numeral w"] assms by simp

lemma rhe_numeral: "rhe (numeral w) = numeral w"
  using rhe_of_int [of "numeral w"] by simp

lemma rhe_0: "rhe 0 = 0"
  using rhe_of_int [of 0] by simp

lemma fsub_self: "isfinite x \<Longrightarrow> fsub x x = Fin 0"
  by (cases x) (simp_all add: fsub_def b64_0)

lemma b64_tie: "b64 9007199254740993 = Fin 9007199254740992"
  by code_simp

text \<open>
  Two evaluations in Python: \<^verbatim>\<open>round(2.675, 2)\<close> is 2.67, since the float 2.675 lies below the
  decimal 2.675; and \<^verbatim>\<open>1e16 + 1.0 - 1e16\<close> is 0.0.
\<close>

lemma float_examples:
  "py_round2 (b64 (2675 / 1000)) = b64 (267 / 100)"
  "fsub (fadd (b64 10000000000000000) (Fin 1)) (b64 10000000000000000) = Fin 0"
  by code_simp+

section \<open>Properties of the money parser\<close>

lemma strip_chars_decomp:
  assumes "list_all P pre" "list_all P post" "body = [] \<or> (\<not> P (hd body) \<and> \<not> P (last body))"
  shows "strip_chars P (pre @ body @ post) = body"
proof (cases "body = []")
  case True
  have "\<forall>x\<in>set (pre @ post). P x"
    using assms(1,2) by (auto simp: list_all_iff)
  then have "dropWhile P (pre @ post) = []"
    unfolding dropWhile_eq_Nil_conv .
  then have "strip_chars P (pre @ post) = []"
    by (simp only: strip_chars_def rev.simps dropWhile.simps)
  then show ?thesis using True by simp
next
  case False
  then obtain b bs where b: "body = b # bs" by (cases body) auto
  from False obtain cs c where c: "body = cs @ [c]" by (metis rev_exhaust)
  have nb: "\<not> P b" using assms(3) b by simp
  have nc: "\<not> P c" using assms(3) c by simp
  have 1: "dropWhile P (pre @ body @ post) = body @ post"
    using assms(1) nb b by (simp add: list_all_iff dropWhile_append3)
  have "dropWhile P (rev post) = []"
    using assms(2) by (simp add: list_all_iff)
  then have 2: "dropWhile P (rev post @ rev body) = rev body"
    using nc c by (simp add: dropWhile_append3)
  show ?thesis by (simp add: strip_chars_def 1 2)
qed

lemma strip_chars_exists:
  "\<exists>pre body post. tok = pre @ body @ post \<and> list_all P pre \<and> list_all P post \<and>
     (body = [] \<or> (\<not> P (hd body) \<and> \<not> P (last body)))"
proof -
  let ?pre = "takeWhile P tok"
  let ?r = "dropWhile P tok"
  let ?post = "rev (takeWhile P (rev ?r))"
  let ?body = "rev (dropWhile P (rev ?r))"
  have "tok = ?pre @ ?body @ ?post"
    by (metis rev_append rev_rev_ident takeWhile_dropWhile_id)
  moreover have "list_all P ?pre" by (simp add: list_all_iff) (metis set_takeWhileD)
  moreover have "list_all P ?post" by (simp add: list_all_iff) (metis set_takeWhileD)
  moreover have "?body = [] \<or> (\<not> P (hd ?body) \<and> \<not> P (last ?body))"
  proof (cases "?body = []")
    case False
    then have ne: "dropWhile P (rev ?r) \<noteq> []" by simp
    have l: "\<not> P (last ?body)" using ne by (simp add: last_rev hd_dropWhile)
    have "?r \<noteq> []" using ne by (cases "?r = []") simp_all
    then have h0: "\<not> P (hd ?r)" by (simp add: hd_dropWhile)
    have "?r = ?body @ ?post" by (metis rev_append rev_rev_ident takeWhile_dropWhile_id)
    then have "hd ?r = hd ?body" using False by (metis hd_append2)
    then show ?thesis using h0 l by simp
  qed simp
  ultimately show ?thesis by blast
qed

lemma wrapped_iff:
  "(startswith s ''('' \<and> endswith s '')'') \<longleftrightarrow> (\<exists>inner. s = ''('' @ inner @ '')'')"
proof
  assume a: "startswith s ''('' \<and> endswith s '')''"
  then obtain r where r: "s = CHR ''('' # r" by (cases s) (auto simp: startswith_def)
  from a have len: "1 \<le> length s" and d: "drop (length s - 1) s = '')''"
    by (auto simp: endswith_def)
  have "last (drop (length s - 1) s) = last s"
    using len by (intro last_drop) simp
  then have ls: "last s = CHR '')''" using d by simp
  have "r \<noteq> []" using r ls by auto
  then have "last r = CHR '')''" using r ls by simp
  then have "r = butlast r @ '')''" using \<open>r \<noteq> []\<close> by (metis append_butlast_last_id)
  then have "s = ''('' @ butlast r @ '')''" using r by simp
  then show "\<exists>inner. s = ''('' @ inner @ '')''" by blast
next
  assume "\<exists>inner. s = ''('' @ inner @ '')''"
  then show "startswith s ''('' \<and> endswith s '')''"
    by (auto simp: startswith_def endswith_def)
qed


lemma py_float_examples:
  "py_float ''1234.56'' = Inr (b64 (123456 / 100))"
  "py_float ''2000'' = Inr (Fin 2000)"
  "py_float ''0'' = Inr (Fin 0)"
  by (simp_all add: py_float_def parse_decimal_def split_sign_def strip_chars_def is_cspace_def is_digit_def
      py_lower_def lower_char_def upper_letters_def lower_letters_def dec_val_def digit_val_def Let_def
      b64_numeral b64_0 power_int_minus)

text \<open>
  C2. \<^verbatim>\<open>parse_money\<close> gives -1234.56 (the negation of the float nearest to 1234.56) on
  \<^verbatim>\<open>(1,234.56)\<close>, 2000.0 on \<^verbatim>\<open>$2,000\<close> and 0.0 on \<^verbatim>\<open>-\<close> and on \<^verbatim>\<open>0\<close>. In general a token is a run of
  parentheses, dollar signs and spaces, a body that neither starts nor ends with one of them,
  and another such run (every token splits so, \<open>strip_chars_exists\<close>); the result is read off
  the body with its commas removed: 0.0 when that is empty or a lone dash, otherwise the float
  that \<^verbatim>\<open>float\<close> reads from it, negated exactly when the token, without surrounding whitespace,
  is wrapped in parentheses. A body that \<^verbatim>\<open>float\<close> does not read raises.
\<close>

theorem parse_money_spec:
  "parse_money ''(1,234.56)'' = Inr (fneg (b64 (123456 / 100))) \<and>
   parse_money ''$2,000'' = Inr (Fin 2000) \<and>
   parse_money ''-'' = Inr (Fin 0) \<and>
   parse_money ''0'' = Inr (Fin 0) \<and>
   (\<forall>pre body post.
      list_all money_chars pre \<and> list_all money_chars post \<and>
      (body = [] \<or> (\<not> money_chars (hd body) \<and> \<not> money_chars (last body))) \<longrightarrow>
      parse_money (pre @ body @ post) =
        (let rem = filter (\<lambda>c. c \<noteq> CHR '','') body
         in if rem = [] \<or> rem = ''-'' then Inr (Fin 0)
            else case py_float rem of
                   Inl e \<Rightarrow> Inl e
                 | Inr v \<Rightarrow> Inr (if (\<exists>inner. py_strip (pre @ body @ post) = ''('' @ inner @ '')'')
                                 then fneg v else v)))"
proof -
  have 1: "parse_money ''(1,234.56)'' = Inr (fneg (b64 (123456 / 100)))"
    by (simp add: parse_money_def py_float_examples py_strip_def strip_chars_def money_chars_def
        startswith_def endswith_def is_space_def)
  have 2: "parse_money ''$2,000'' = Inr (Fin 2000)"
    by (simp add: parse_money_def py_float_examples py_strip_def strip_chars_def money_chars_def
        startswith_def endswith_def is_space_def)
  have 3: "parse_money ''-'' = Inr (Fin 0)"
    by (simp add: parse_money_def py_strip_def strip_chars_def money_chars_def)
  have 4: "parse_money ''0'' = Inr (Fin 0)"
    by (simp add: parse_money_def py_float_examples py_strip_def strip_chars_def money_chars_def
        startswith_def endswith_def is_space_def)
  have 5: "parse_money (pre @ body @ post) =
        (let rem = filter (\<lambda>c. c \<noteq> CHR '','') body
         in if rem = [] \<or> rem = ''-'' then Inr (Fin 0)
            else case py_float rem of
                   Inl e \<Rightarrow> Inl e
                 | Inr v \<Rightarrow> Inr (if (\<exists>inner. py_strip (pre @ body @ post) = ''('' @ inner @ '')'')
                                 then fneg v else v))"
    if "list_all money_chars pre" "list_all money_chars post"
       "body = [] \<or> (\<not> money_chars (hd body) \<and> \<not> money_chars (last body))"
    for pre body post
    unfolding parse_money_def strip_chars_decomp[OF that] wrapped_iff Let_def by simp
  show ?thesis using 1 2 3 4 5 by blast
qed

theorem parse_money_spec_witness:
  "parse_money (''($ '' @ ''1,234.56'' @ '')'') = Inr (fneg (b64 (123456 / 100)))"
proof -
  have a: "list_all money_chars ''($ '' \<and> list_all money_chars '')'' \<and>
      (''1,234.56'' = [] \<or> (\<not> money_chars (hd ''1,234.56'') \<and> \<not> money_chars (last ''1,234.56'')))"
    by (simp add: money_chars_def)
  have b: "(\<exists>inner. py_strip (''($ '' @ ''1,234.56'' @ '')'') = ''('' @ inner @ '')'')"
    unfolding wrapped_iff[symmetric]
    by (simp add: py_strip_def strip_chars_def is_space_def startswith_def endswith_def)
  have c: "py_float ''1234.56'' = Inr (b64 (123456 / 100))"
    by (rule py_float_examples)
  have d: "filter (\<lambda>c. c \<noteq> CHR '','') ''1,234.56'' = ''1234.56''" by simp
  from parse_money_spec have
    "list_all money_chars ''($ '' \<and> list_all money_chars '')'' \<and>
      (''1,234.56'' = [] \<or> (\<not> money_chars (hd ''1,234.56'') \<and> \<not> money_chars (last ''1,234.56''))) \<longrightarrow>
      parse_money (''($ '' @ ''1,234.56'' @ '')'') =
        (let rem = filter (\<lambda>c. c \<noteq> CHR '','') ''1,234.56''
         in if rem = [] \<or> rem = ''-'' then Inr (Fin 0)
            else case py_float rem of
                   Inl e \<Rightarrow> Inl e
                 | Inr v \<Rightarrow> Inr (if (\<exists>inner. py_strip (''($ '' @ ''1,234.56'' @ '')'') = ''('' @ inner @ '')'')
                                 then fneg v else v))"
    by blast
  with a have "parse_money (''($ '' @ ''1,234.56'' @ '')'') =
        (let rem = filter (\<lambda>c. c \<noteq> CHR '','') ''1,234.56''
         in if rem = [] \<or> rem = ''-'' then Inr (Fin 0)
            else case py_float rem of
                   Inl e \<Rightarrow> Inl e
                 | Inr v \<Rightarrow> Inr (if (\<exists>inner. py_strip (''($ '' @ ''1,234.56'' @ '')'') = ''('' @ inner @ '')'')
                                 then fneg v else v))" by blast
  then show ?thesis unfolding Let_def d c using b by simp
qed

text \<open>What \<^verbatim>\<open>float\<close> reads beyond plain decimals, and what it refuses.\<close>

lemma py_float_grammar:
  "py_float ''1e3'' = Inr (Fin 1000)"
  "py_float ''1_000'' = Inr (Fin 1000)"
  "py_float ''-inf'' = Inr NInf"
  "py_float [CHR 0x1F, CHR ''5''] = Inl ValueError"
  "py_float ''5.'' = Inr (Fin 5)"
  "py_float ''1__0'' = Inl ValueError"
  by (simp_all add: py_float_def parse_decimal_def split_sign_def strip_chars_def is_cspace_def is_digit_def
      py_lower_def lower_char_def upper_letters_def lower_letters_def dec_val_def digit_val_def Let_def
      b64_numeral b64_0 power_int_minus)

section \<open>Properties of the rollup builder and the diagnostics\<close>

lemma cash_flows_rollup:
  "total' (operating_activities (cash_flows (rollup_payload R ps fs c p cur y r))) =
     py_round2
       (fadd (fadd (fadd (fadd (fadd (fadd (fadd (fadd (fadd
          (g r ''net_income'') (g r ''amortization_of_tangible_assets''))
          (g r ''amortization_of_intangible_assets'')) (g r ''change_accounts_receivable''))
          (g r ''change_investment_tax_credits_receivable'')) (g r ''change_inventories''))
          (g r ''change_prepaid_expenses'')) (g r ''change_accounts_payable_and_accrued_liabilities''))
          (g r ''change_government_remittances_payable'')) (g r ''change_deferred_revenue''))"
  by (simp add: rollup_payload_def Let_def statement.defs payload.defs del: py_round2.simps)

text \<open>
  C7. For every flat map the operating-activities total of the rolled-up cash flows is the sum,
  rounded to two decimals, over exactly ten fixed keys (net income, the amortization of
  tangible and of intangible assets, seven working-capital changes), where a key that the flat
  map does not hold counts 0.0; the builder raises no error. The sum is the one the code
  computes: binary64 additions from left to right, in the order of the keys, and the rounding
  is that of \<^verbatim>\<open>round(x, 2)\<close> on floats.
\<close>

theorem operating_total:
  "length operating_keys = 10 \<and> distinct operating_keys \<and>
   total' (operating_activities (cash_flows (rollup_payload R ps fs c p cur y r))) =
     py_round2 (float_chain (map (\<lambda>k. case r k of None \<Rightarrow> Fin 0 | Some v \<Rightarrow> v) operating_keys))"
proof -
  have "float_chain (map (\<lambda>k. case r k of None \<Rightarrow> Fin 0 | Some v \<Rightarrow> v) operating_keys) =
       fadd (fadd (fadd (fadd (fadd (fadd (fadd (fadd (fadd
          (g r ''net_income'') (g r ''amortization_of_tangible_assets''))
          (g r ''amortization_of_intangible_assets'')) (g r ''change_accounts_receivable''))
          (g r ''change_investment_tax_credits_receivable'')) (g r ''change_inventories''))
          (g r ''change_prepaid_expenses'')) (g r ''change_accounts_payable_and_accrued_liabilities''))
          (g r ''change_government_remittances_payable'')) (g r ''change_deferred_revenue'')"
    by (simp add: operating_keys_def g_def)
  moreover have "length operating_keys = 10" by (simp add: operating_keys_def)
  moreover have "distinct operating_keys" by (simp add: operating_keys_def)
  ultimately show ?thesis by (simp only: cash_flows_rollup simp_thms)
qed

theorem operating_total_witness:
  "total' (operating_activities (cash_flows
     (rollup_payload fixture_rollups fixture_sum (\<lambda>v. ''?'') ''Acme Inc.'' None ''USD'' 2023 fixture_flat))) =
   Fin 975"
proof -
  have "py_round2 (float_chain (map (\<lambda>k. case fixture_flat k of None \<Rightarrow> Fin 0 | Some v \<Rightarrow> v) operating_keys)) =
      Fin 975"
    by (simp add: operating_keys_def fixture_flat_def rhe_numeral b64_numeral)
  then show ?thesis
    using operating_total [of fixture_rollups fixture_sum "\<lambda>v. ''?''" "''Acme Inc.''" None "''USD''" 2023 fixture_flat]
    by (simp del: py_round2.simps float_chain.simps)
qed

lemma checks_diagnostics:
  "checks (diagnostics fs p) =
     [(''balance_sheet_identity'',
         py_round2 (fsub (total_assets (assets (balance_sheet p)))
           (fadd (fadd (total' (current_liabilities (liabilities_and_equity (balance_sheet p))))
                       (loan_payable (liabilities_and_equity (balance_sheet p))))
                 (total' (shareholders_equity (liabilities_and_equity (balance_sheet p))))))),
      (''retained_earnings_recon'',
         py_round2 (fsub (fadd (fadd (beginning (retained_earnings_rollforward (income_statement p)))
                                     (net_income (income_statement p)))
                               (dividends (retained_earnings_rollforward (income_statement p))))
                         (end' (retained_earnings_rollforward (income_statement p))))),
      (''cash_bridge'',
         py_round2 (fsub (fadd (cash_beginning (cash_flows p)) (increase_in_cash (cash_flows p)))
                         (cash_end (cash_flows p)))),
      (''ibt_vs_rev_minus_exp'',
         py_round2 (fsub (fsub (revenue (income_statement p)) (total' (expenses (income_statement p))))
                         (income_before_income_taxes (income_statement p))))]"
  by (simp add: diagnostics_def Let_def del: py_round2.simps)

lemma warnings_diagnostics:
  "warnings (diagnostics fs p) =
     map (\<lambda>kv. fst kv @ '' mismatch: '' @ fs (snd kv))
         (filter (\<lambda>kv. fgt (fabs (snd kv)) (Fin 1)) (checks (diagnostics fs p)))"
  by (simp add: diagnostics_def Let_def del: py_round2.simps)

lemma warning_iff:
  assumes "(k, v) \<in> set (checks (diagnostics fs p))"
  shows "(k @ '' mismatch: '' @ fs v \<in> set (warnings (diagnostics fs p))) = fgt (fabs v) (Fin 1)"
  using assms unfolding warnings_diagnostics unfolding checks_diagnostics
  by (auto simp del: py_round2.simps)

text \<open>
  C6. For every payload the diagnostics hold the four checks, and the warning
  \<open>name mismatch: value\<close> of a check is emitted exactly when the absolute value of its rounded
  residual exceeds 1.0; every warning is one of these. When the total assets are finite and
  equal the float sum of current liabilities, loan payable and shareholders' equity, as the
  code adds them, the residual of \<open>balance_sheet_identity\<close> is 0.0 and no warning of that check
  is present.
\<close>

theorem diagnostics_spec:
  "map fst (checks (diagnostics fs p)) =
     [''balance_sheet_identity'', ''retained_earnings_recon'', ''cash_bridge'', ''ibt_vs_rev_minus_exp''] \<and>
   (\<forall>k v. (k, v) \<in> set (checks (diagnostics fs p)) \<longrightarrow>
      (k @ '' mismatch: '' @ fs v \<in> set (warnings (diagnostics fs p))) = fgt (fabs v) (Fin 1)) \<and>
   (\<forall>w \<in> set (warnings (diagnostics fs p)).
      \<exists>k v. (k, v) \<in> set (checks (diagnostics fs p)) \<and> fgt (fabs v) (Fin 1) \<and> w = k @ '' mismatch: '' @ fs v) \<and>
   (isfinite (total_assets (assets (balance_sheet p))) \<and>
    total_assets (assets (balance_sheet p)) =
      fadd (fadd (total' (current_liabilities (liabilities_and_equity (balance_sheet p))))
                 (loan_payable (liabilities_and_equity (balance_sheet p))))
           (total' (shareholders_equity (liabilities_and_equity (balance_sheet p)))) \<longrightarrow>
    (''balance_sheet_identity'', Fin 0) \<in> set (checks (diagnostics fs p)) \<and>
    (\<forall>s. ''balance_sheet_identity mismatch: '' @ s \<notin> set (warnings (diagnostics fs p))))"
proof (intro conjI allI impI ballI)
  show "map fst (checks (diagnostics fs p)) =
     [''balance_sheet_identity'', ''retained_earnings_recon'', ''cash_bridge'', ''ibt_vs_rev_minus_exp'']"
    by (simp add: checks_diagnostics del: py_round2.simps)
next
  fix k v assume "(k, v) \<in> set (checks (diagnostics fs p))"
  then show "(k @ '' mismatch: '' @ fs v \<in> set (warnings (diagnostics fs p))) = fgt (fabs v) (Fin 1)"
    by (rule warning_iff)
next
  fix w assume "w \<in> set (warnings (diagnostics fs p))"
  then show "\<exists>k v. (k, v) \<in> set (checks (diagnostics fs p)) \<and> fgt (fabs v) (Fin 1) \<and> w = k @ '' mismatch: '' @ fs v"
    unfolding warnings_diagnostics by force
next
  assume a: "isfinite (total_assets (assets (balance_sheet p))) \<and>
    total_assets (assets (balance_sheet p)) =
      fadd (fadd (total' (current_liabilities (liabilities_and_equity (balance_sheet p))))
                 (loan_payable (liabilities_and_equity (balance_sheet p))))
           (total' (shareholders_equity (liabilities_and_equity (balance_sheet p))))"
  define A where "A = total_assets (assets (balance_sheet p))"
  define S where "S = fadd (fadd (total' (current_liabilities (liabilities_and_equity (balance_sheet p))))
                       (loan_payable (liabilities_and_equity (balance_sheet p))))
                 (total' (shareholders_equity (liabilities_and_equity (balance_sheet p))))"
  from a have fa: "isfinite A" unfolding A_def by (rule conjunct1)
  from a have "A = S" unfolding A_def S_def by (rule conjunct2)
  then have "fsub A S = fsub A A" by (rule arg_cong [OF sym])
  also have "\<dots> = Fin 0" using fa by (rule fsub_self)
  finally have "fsub A S = Fin 0" .
  then have "py_round2 (fsub A S) = Fin 0" by (simp only: py_round2_0)
  then have z: "py_round2 (fsub (total_assets (assets (balance_sheet p)))
           (fadd (fadd (total' (current_liabilities (liabilities_and_equity (balance_sheet p))))
                       (loan_payable (liabilities_and_equity (balance_sheet p))))
                 (total' (shareholders_equity (liabilities_and_equity (balance_sheet p)))))) = Fin 0"
    by (simp only: A_def S_def)
  show "(''balance_sheet_identity'', Fin 0) \<in> set (checks (diagnostics fs p))"
    unfolding checks_diagnostics z by simp
  fix s
  show "''balance_sheet_identity mismatch: '' @ s \<notin> set (warnings (diagnostics fs p))"
    unfolding warnings_diagnostics unfolding checks_diagnostics z by (auto simp del: py_round2.simps)
qed

lemma rollup_balance_sheet:
  "total_assets (assets (balance_sheet (rollup_payload R ps fs c p cur y r))) =
     py_round2 (fadd (sum_keys ps r (current_assets_keys R)) (sum_keys ps r (singletons R)))"
  "total' (current_liabilities (liabilities_and_equity (balance_sheet (rollup_payload R ps fs c p cur y r)))) =
     py_round2 (sum_keys ps r (current_liabilities_keys R))"
  "loan_payable (liabilities_and_equity (balance_sheet (rollup_payload R ps fs c p cur y r))) =
     py_round2 (case loan_payable_key R of Some k \<Rightarrow> g r k | None \<Rightarrow> Fin 0)"
  "total' (shareholders_equity (liabilities_and_equity (balance_sheet (rollup_payload R ps fs c p cur y r)))) =
     py_round2 (sum_keys ps r (shareholders_equity_keys R))"
  by (simp_all add: rollup_payload_def Let_def statement.defs payload.defs del: py_round2.simps)

lemma rollup_rollforward:
  "beginning (retained_earnings_rollforward (income_statement (rollup_payload R ps fs c p cur y r))) =
     g r ''retained_earnings_beginning''"
  "net_income (income_statement (rollup_payload R ps fs c p cur y r)) = g r ''net_income''"
  "dividends (retained_earnings_rollforward (income_statement (rollup_payload R ps fs c p cur y r))) =
     g r ''dividends''"
  "end' (retained_earnings_rollforward (income_statement (rollup_payload R ps fs c p cur y r))) =
     g r ''retained_earnings_end_of_year''"
  by (simp_all add: rollup_payload_def Let_def statement.defs payload.defs del: py_round2.simps)

lemma fixture_identity:
  "total_assets (assets (balance_sheet (rollup_payload fixture_rollups fixture_sum fs c p cur y fixture_flat))) = Fin 500"
  "total' (current_liabilities (liabilities_and_equity (balance_sheet
      (rollup_payload fixture_rollups fixture_sum fs c p cur y fixture_flat)))) = Fin 0"
  "loan_payable (liabilities_and_equity (balance_sheet
      (rollup_payload fixture_rollups fixture_sum fs c p cur y fixture_flat))) = Fin 0"
  "total' (shareholders_equity (liabilities_and_equity (balance_sheet
      (rollup_payload fixture_rollups fixture_sum fs c p cur y fixture_flat)))) = Fin 500"
  unfolding rollup_balance_sheet
  by (simp_all add: fixture_rollups_def fixture_flat_def fixture_sum_def sum_keys_def g_def
      rhe_numeral rhe_0 b64_numeral b64_0)

lemma fixture_recon:
  "(''retained_earnings_recon'', Fin 1000) \<in>
     set (checks (diagnostics fs (rollup_payload fixture_rollups fixture_sum fs' c p cur y fixture_flat)))"
  unfolding checks_diagnostics rollup_rollforward
  by (simp add: fixture_flat_def g_def fsub_def rhe_numeral rhe_0 b64_numeral b64_0)

theorem diagnostics_spec_witness:
  "(''balance_sheet_identity'', Fin 0) \<in>
     set (checks (diagnostics (\<lambda>v. ''?'')
       (rollup_payload fixture_rollups fixture_sum (\<lambda>v. ''?'') ''Acme Inc.'' None ''USD'' 2023 fixture_flat))) \<and>
   ''balance_sheet_identity mismatch: ?'' \<notin>
     set (warnings (diagnostics (\<lambda>v. ''?'')
       (rollup_payload fixture_rollups fixture_sum (\<lambda>v. ''?'') ''Acme Inc.'' None ''USD'' 2023 fixture_flat))) \<and>
   ''retained_earnings_recon mismatch: ?'' \<in>
     set (warnings (diagnostics (\<lambda>v. ''?'')
       (rollup_payload fixture_rollups fixture_sum (\<lambda>v. ''?'') ''Acme Inc.'' None ''USD'' 2023 fixture_flat)))"
proof -
  let ?p = "rollup_payload fixture_rollups fixture_sum (\<lambda>v. ''?'') ''Acme Inc.'' None ''USD'' 2023 fixture_flat"
  note ds = diagnostics_spec [of "\<lambda>v. ''?''" ?p]
  have eq: "isfinite (total_assets (assets (balance_sheet ?p))) \<and>
      total_assets (assets (balance_sheet ?p)) =
      fadd (fadd (total' (current_liabilities (liabilities_and_equity (balance_sheet ?p))))
                 (loan_payable (liabilities_and_equity (balance_sheet ?p))))
           (total' (shareholders_equity (liabilities_and_equity (balance_sheet ?p))))"
    unfolding fixture_identity by (simp add: b64_numeral b64_0)
  note bs = ds [THEN conjunct2, THEN conjunct2, THEN conjunct2, THEN mp, OF eq]
  note a = bs [THEN conjunct1]
  have "''balance_sheet_identity mismatch: '' @ ''?'' \<notin> set (warnings (diagnostics (\<lambda>v. ''?'') ?p))"
    by (rule bs [THEN conjunct2, THEN HOL.spec])
  then have b: "''balance_sheet_identity mismatch: ?'' \<notin> set (warnings (diagnostics (\<lambda>v. ''?'') ?p))"
    by simp
  have "(''retained_earnings_recon'' @ '' mismatch: '' @ ''?'' \<in> set (warnings (diagnostics (\<lambda>v. ''?'') ?p))) =
      fgt (fabs (Fin 1000)) (Fin 1)"
    by (rule ds [THEN conjunct2, THEN conjunct1, THEN HOL.spec, THEN HOL.spec, THEN mp, OF fixture_recon])
  then have c: "''retained_earnings_recon mismatch: ?'' \<in> set (warnings (diagnostics (\<lambda>v. ''?'') ?p))"
    by simp
  show ?thesis by (rule conjI [OF a conjI [OF b c]])
qed

theorem balanced_exactly_counterexample:
  "total_assets (assets (balance_sheet
     (balance_fixture (Fin 9007199254740994) (Fin 9007199254740992) (Fin 1) (Fin 1)))) = Fin 9007199254740994 \<and>
   total' (current_liabilities (liabilities_and_equity (balance_sheet
     (balance_fixture (Fin 9007199254740994) (Fin 9007199254740992) (Fin 1) (Fin 1))))) = Fin 9007199254740992 \<and>
   loan_payable (liabilities_and_equity (balance_sheet
     (balance_fixture (Fin 9007199254740994) (Fin 9007199254740992) (Fin 1) (Fin 1)))) = Fin 1 \<and>
   total' (shareholders_equity (liabilities_and_equity (balance_sheet
     (balance_fixture (Fin 9007199254740994) (Fin 9007199254740992) (Fin 1) (Fin 1))))) = Fin 1 \<and>
   (9007199254740994 :: rat) = 9007199254740992 + 1 + 1 \<and>
   checks (diagnostics fixture_str
     (balance_fixture (Fin 9007199254740994) (Fin 9007199254740992) (Fin 1) (Fin 1))) =
     [(''balance_sheet_identity'', Fin 2), (''retained_earnings_recon'', Fin 0),
      (''cash_bridge'', Fin 0), (''ibt_vs_rev_minus_exp'', Fin 0)] \<and>
   warnings (diagnostics fixture_str
     (balance_fixture (Fin 9007199254740994) (Fin 9007199254740992) (Fin 1) (Fin 1))) =
     [''balance_sheet_identity mismatch: 2.0'']"
proof -
  have s: "fadd (fadd (Fin 9007199254740992) (Fin 1)) (Fin 1) = Fin 9007199254740992"
    by (simp add: b64_tie)
  have d: "fsub (Fin 9007199254740994) (Fin 9007199254740992) = Fin 2"
    by (simp add: fsub_def b64_numeral)
  have r: "py_round2 (Fin 2) = Fin 2" "py_round2 (Fin 0) = Fin 0"
    by (simp_all add: rhe_numeral rhe_0 b64_numeral)
  have z: "fsub (fadd (fadd (Fin 0) (Fin 0)) (Fin 0)) (Fin 0) = Fin 0"
    "fsub (fadd (Fin 0) (Fin 0)) (Fin 0) = Fin 0" "fsub (fsub (Fin 0) (Fin 0)) (Fin 0) = Fin 0"
    by (simp_all add: fsub_def b64_0)
  have c: "checks (diagnostics fixture_str
     (balance_fixture (Fin 9007199254740994) (Fin 9007199254740992) (Fin 1) (Fin 1))) =
     [(''balance_sheet_identity'', Fin 2), (''retained_earnings_recon'', Fin 0),
      (''cash_bridge'', Fin 0), (''ibt_vs_rev_minus_exp'', Fin 0)]"
    unfolding checks_diagnostics by (simp add: balance_fixture_def s d r z del: py_round2.simps fadd.simps)
  have w: "warnings (diagnostics fixture_str
     (balance_fixture (Fin 9007199254740994) (Fin 9007199254740992) (Fin 1) (Fin 1))) =
     [''balance_sheet_identity mismatch: 2.0'']"
    unfolding warnings_diagnostics c by (simp add: fixture_str_def)
  show ?thesis using c w by (simp add: balance_fixture_def)
qed

section \<open>Properties of the matcher, of skipped lines and of company detection\<close>

lemma find_first:
  assumes "\<forall>x\<in>set pre. \<not> P x" "P y"
  shows "find P (pre @ y # post) = Some y"
  using assms by (induction pre) auto

lemma find_none:
  assumes "\<forall>x\<in>set xs. \<not> P x"
  shows "find P xs = None"
  using assms by (induction xs) auto

text \<open>
  C3. When a pattern of some taxonomy entry matches the lower-cased label, \<^verbatim>\<open>match_canonical\<close>
  returns the key of the first entry that has a matching pattern, whatever the fuzzy matcher
  would answer.
\<close>

theorem regex_pass_wins:
  assumes "canon E = pre @ (k, d) # post"
    and "\<forall>kd\<in>set pre. \<forall>rx\<in>set (regex (snd kd)). \<not> re_search E rx (py_lower label)"
    and "\<exists>rx\<in>set (regex d). re_search E rx (py_lower label)"
  shows "match_canonical E label = Some k"
proof -
  let ?P = "\<lambda>kd. list_ex (\<lambda>rx. re_search E rx (py_lower label)) (regex (snd kd))"
  have "\<forall>kd\<in>set pre. \<not> ?P kd" using assms(2) by (auto simp: list_ex_iff)
  moreover have "?P (k, d)" using assms(3) by (auto simp: list_ex_iff)
  ultimately have "find ?P (canon E) = Some (k, d)"
    unfolding assms(1) by (rule find_first)
  then show ?thesis by (simp add: match_canonical_def Let_def)
qed

lemma fixture_fuzzy:
  "extractOne fixture_env (py_lower ''Cash'') (FUZZY_CHOICES fixture_env) = Some (''dividends'', 100) \<and>
   CANON_KEY_FOR fixture_env ''dividends'' = Some ''dividends''"
  by (simp add: fixture_env_def FUZZY_CHOICES_def CANON_KEY_FOR_def py_lower_def lower_char_def
      upper_letters_def lower_letters_def)

theorem regex_pass_wins_witness:
  "match_canonical fixture_env ''Cash'' = Some ''cash'' \<and>
   extractOne fixture_env (py_lower ''Cash'') (FUZZY_CHOICES fixture_env) = Some (''dividends'', 100) \<and>
   CANON_KEY_FOR fixture_env ''dividends'' = Some ''dividends''"
proof -
  have c: "canon fixture_env = [] @ (''cash'', \<lparr>synonyms = [''cash'', ''cash and cash equivalents''], regex = [''cash'']\<rparr>) #
     [(''accounts_payable_and_accrued_liabilities'',
            \<lparr>synonyms = [''accounts payable and accrued liabilities''], regex = [''accounts payable'']\<rparr>),
         (''dividends'', \<lparr>synonyms = [''Dividends''], regex = []\<rparr>)]"
    by (simp add: fixture_env_def)
  have n: "\<forall>kd\<in>set []. \<forall>rx\<in>set (regex (snd kd)). \<not> re_search fixture_env rx (py_lower ''Cash'')"
    by simp
  have m: "\<exists>rx\<in>set (regex \<lparr>synonyms = [''cash'', ''cash and cash equivalents''], regex = [''cash'']\<rparr>).
      re_search fixture_env rx (py_lower ''Cash'')"
    by (simp add: fixture_env_def py_lower_def lower_char_def upper_letters_def lower_letters_def startswith_def)
  have "match_canonical fixture_env ''Cash'' = Some ''cash''"
    by (rule regex_pass_wins [OF c n m])
  then show ?thesis using fixture_fuzzy by simp
qed

lemma match_none:
  assumes "\<forall>kd\<in>set (canon E). \<forall>rx\<in>set (regex (snd kd)). \<not> re_search E rx (py_lower label)"
    and "case extractOne E (py_lower label) (FUZZY_CHOICES E) of None \<Rightarrow> True | Some b \<Rightarrow> snd b < 84"
  shows "match_canonical E label = None"
proof -
  let ?P = "\<lambda>kd. list_ex (\<lambda>rx. re_search E rx (py_lower label)) (regex (snd kd))"
  have "\<forall>kd\<in>set (canon E). \<not> ?P kd" using assms(1) by (auto simp: list_ex_iff)
  then have "find ?P (canon E) = None" by (rule find_none)
  then show ?thesis using assms(2)
    by (auto simp: match_canonical_def Let_def threshold_def split: option.splits)
qed

text \<open>
  C4. A line with numeric tokens whose normalized label matches no pattern of the taxonomy,
  whose best fuzzy score is below 84 (or that has no fuzzy candidate) and that contains no
  entry of the table of working-capital changes is skipped: no error, and the year buckets
  are unchanged.
\<close>

theorem unmatched_line_skipped:
  assumes "num_findall (py_strip line) = n0 # ns"
    and "label = norm_label (py_strip (before_first n0 (py_strip line)))"
    and "\<forall>kd\<in>set (canon E). \<forall>rx\<in>set (regex (snd kd)). \<not> re_search E rx (py_lower label)"
    and "case extractOne E (py_lower label) (FUZZY_CHOICES E) of None \<Rightarrow> True | Some b \<Rightarrow> snd b < 84"
    and "\<forall>sc\<in>set change_map. \<not> contains (py_lower label) (fst sc)"
  shows "process_line E years ctx raw line = Inr raw"
proof -
  have "match_canonical E label = None" using assms(3,4) by (rule match_none)
  moreover have "find (\<lambda>sc. contains (py_lower label) (fst sc)) change_map = None"
    using assms(5) by (rule find_none)
  ultimately have "resolve_label E label = None"
    by (simp add: resolve_label_def falsy_def)
  then show ?thesis using assms(1,2)
    by (simp add: process_line_def Let_def)
qed

lemma goodwill_tokens: "num_findall (py_strip ''Goodwill 1,000 900'') = ['' 1,000'', '' 900'']"
  by code_simp

lemma goodwill_label:
  "norm_label (py_strip (before_first '' 1,000'' (py_strip ''Goodwill 1,000 900''))) = ''Goodwill''"
  by code_simp

lemma goodwill_lower: "py_lower ''Goodwill'' = ''goodwill''"
  by code_simp

theorem unmatched_line_skipped_witness:
  "process_line (fixture_env\<lparr>extractOne := \<lambda>q choices. Some (''cash'', 10)\<rparr>) [2022, 2023] 2023
      (\<lambda>y. if y \<in> {2022, 2023} then Some Map.empty else None) ''Goodwill 1,000 900'' =
   Inr (\<lambda>y. if y \<in> {2022, 2023} then Some Map.empty else None)"
proof -
  let ?E = "fixture_env\<lparr>extractOne := \<lambda>q choices. Some (''cash'', 10)\<rparr>"
  have l: "''Goodwill'' = norm_label (py_strip (before_first '' 1,000'' (py_strip ''Goodwill 1,000 900'')))"
    by (simp only: goodwill_label)
  have r: "\<forall>kd\<in>set (canon ?E). \<forall>rx\<in>set (regex (snd kd)). \<not> re_search ?E rx (py_lower ''Goodwill'')"
    unfolding goodwill_lower
    by (simp add: fixture_env_def py_lower_def lower_char_def upper_letters_def lower_letters_def startswith_def)
  have f: "case extractOne ?E (py_lower ''Goodwill'') (FUZZY_CHOICES ?E) of None \<Rightarrow> True | Some b \<Rightarrow> snd b < 84"
    by simp
  have c: "\<forall>sc\<in>set change_map. \<not> contains (py_lower ''Goodwill'') (fst sc)"
    unfolding goodwill_lower by (simp add: change_map_def startswith_def)
  show ?thesis by (rule unmatched_line_skipped [OF goodwill_tokens l r f c])
qed

lemma company_fold:
  "foldl (company_step E) c0 ls = Some c \<Longrightarrow>
     c0 = Some c \<or> (5 < length c \<and> c \<in> py_strip ` set ls)"
proof (induction ls arbitrary: c0)
  case Nil
  then show ?case by simp
next
  case (Cons l ls)
  from Cons.prems have "foldl (company_step E) (company_step E c0 l) ls = Some c" by simp
  from Cons.IH [OF this] show ?case
    by (auto simp: company_step_def Let_def split: if_splits option.splits)
qed

text \<open>
  C9. The company that \<^verbatim>\<open>extract_company_and_period\<close> detects on a page is a stripped line of
  more than 5 characters; when every line is 5 characters or shorter, none is detected.
\<close>

theorem company_longer_than_5:
  assumes "extract_company_and_period E text = Inr (co, p)"
  shows "(\<forall>c. co = Some c \<longrightarrow> 5 < length c \<and> c \<in> py_strip ` set (splitlines text)) \<and>
         ((\<forall>l\<in>set (splitlines text). length (py_strip l) \<le> 5) \<longrightarrow> co = None)"
proof -
  from assms have co: "co = foldl (company_step E) None (splitlines text)"
    by (auto simp: extract_company_and_period_def Let_def split: option.splits sum.splits)
  have a: "5 < length c \<and> c \<in> py_strip ` set (splitlines text)" if "co = Some c" for c
    using company_fold [of E None "splitlines text" c] that co by simp
  have "co = None" if "\<forall>l\<in>set (splitlines text). length (py_strip l) \<le> 5"
  proof (cases co)
    case (Some c)
    from a [OF Some] that show ?thesis by auto
  qed simp
  with a show ?thesis by blast
qed

lemma fixture_company:
  "extract_company_and_period fixture_env (''X Inc'' @ [CHR 0x0A] @ '' Acme Widgets Inc.'' @ [CHR 0x0A] @ ''Y Ltd'') =
     Inr (Some ''Acme Widgets Inc.'', None)"
  by code_simp

lemma fixture_company_short:
  "extract_company_and_period fixture_env (''X Inc'' @ [CHR 0x0A] @ ''Y Ltd'') = Inr (None, None)"
  by code_simp

theorem company_longer_than_5_witness:
  "5 < length ''Acme Widgets Inc.'' \<and>
   ''Acme Widgets Inc.'' \<in> py_strip ` set (splitlines (''X Inc'' @ [CHR 0x0A] @ '' Acme Widgets Inc.'' @ [CHR 0x0A] @ ''Y Ltd''))"
  using company_longer_than_5 [OF fixture_company] by blast

section \<open>Properties of the value accumulator\<close>

lemma py_max_Max: "xs \<noteq> [] \<Longrightarrow> py_max xs = Inr (Max (set xs))"
proof (cases xs)
  case (Cons a r)
  then show ?thesis using Max.set_eq_fold [of a r] by (simp add: py_max_def)
qed simp

lemma py_min_Min: "xs \<noteq> [] \<Longrightarrow> py_min xs = Inr (Min (set xs))"
proof (cases xs)
  case (Cons a r)
  then show ?thesis using Min.set_eq_fold [of a r] by (simp add: py_min_def)
qed simp

lemma distinct_Max_Min:
  assumes "distinct (xs :: int list)" "2 \<le> length xs"
  shows "Max (set xs) \<noteq> Min (set xs)"
proof
  assume eq: "Max (set xs) = Min (set xs)"
  from assms(2) obtain a b r where xs: "xs = a # b # r"
    by (cases xs; cases "tl xs") auto
  have ab: "a \<in> set xs" "b \<in> set xs" using xs by auto
  have "a \<le> Max (set xs)" "b \<le> Max (set xs)" using ab by (simp_all only: Max_ge [OF finite_set])
  moreover have "Min (set xs) \<le> a" "Min (set xs) \<le> b" using ab by (simp_all only: Min_le [OF finite_set])
  ultimately have "a = b" using eq by linarith
  with assms(1) xs show False by simp
qed

lemma two_columns:
  assumes "num_findall (py_strip line) = n0 # ns"
    and "label = norm_label (py_strip (before_first n0 (py_strip line)))"
    and "label \<noteq> []"
    and "resolve_label E label = Some k"
    and "k \<noteq> []"
    and "money_values (filter (list_ex is_digit) (n0 # ns)) = Inr values"
    and "2 \<le> length values"
    and "2 \<le> length years"
    and "distinct years"
    and "raw (Max (set years)) = Some m1"
    and "raw (Min (set years)) = Some m2"
  shows "process_line E years ctx raw line =
           Inr (raw(Max (set years) \<mapsto> m1(k \<mapsto> values ! (length values - 2)),
                    Min (set years) \<mapsto> m2(k \<mapsto> last values)))"
proof -
  have ne: "years \<noteq> []" "values \<noteq> []" using assms(7,8) by auto
  have neq: "Max (set years) \<noteq> Min (set years)"
    using assms(9,8) by (rule distinct_Max_Min)
  have acc: "accumulate years ctx raw k values =
      Inr (raw(Max (set years) \<mapsto> m1(k \<mapsto> values ! (length values - 2)),
               Min (set years) \<mapsto> m2(k \<mapsto> last values)))"
    using assms(7,8,10,11) neq
    by (simp add: accumulate_def Let_def py_max_Max [OF ne(1)] py_min_Min [OF ne(1)] set_item_def)
  have "py_strip line \<noteq> []" using assms(1) by auto
  then show ?thesis
    using assms(1-6) ne(2) acc by (simp add: process_line_def Let_def)
qed

text \<open>
  C1, amended. For a line whose label resolves to a canonical key and that yields at least two
  numeric values, in a document with at least two distinct years, the last two values of the
  line are taken as current and prior: the one before the last is written under the largest
  year and the last under the smallest. For a line with exactly two values these are its
  first and its second value.
\<close>

theorem two_column_split:
  assumes "num_findall (py_strip line) = n0 # ns"
    and "label = norm_label (py_strip (before_first n0 (py_strip line)))"
    and "label \<noteq> []"
    and "resolve_label E label = Some k"
    and "k \<noteq> []"
    and "money_values (filter (list_ex is_digit) (n0 # ns)) = Inr values"
    and "2 \<le> length values"
    and "2 \<le> length years"
    and "distinct years"
    and "raw (Max (set years)) = Some m1"
    and "raw (Min (set years)) = Some m2"
  shows "process_line E years ctx raw line =
           Inr (raw(Max (set years) \<mapsto> m1(k \<mapsto> values ! (length values - 2)),
                    Min (set years) \<mapsto> m2(k \<mapsto> last values))) \<and>
         (length values = 2 \<longrightarrow>
            process_line E years ctx raw line =
              Inr (raw(Max (set years) \<mapsto> m1(k \<mapsto> values ! 0),
                       Min (set years) \<mapsto> m2(k \<mapsto> values ! 1))))"
proof -
  note main = two_columns [OF assms]
  have "last values = values ! 1" if "length values = 2"
    using that by (cases "values"; cases "tl values") auto
  with main show ?thesis by auto
qed

lemma parse_money_tokens:
  "parse_money ''$ 10,000'' = Inr (Fin 10000)" "parse_money '' 8,000'' = Inr (Fin 8000)"
  "parse_money '' 10,000'' = Inr (Fin 10000)" "parse_money '' 5'' = Inr (Fin 5)"
  by (simp_all add: parse_money_def py_float_def parse_decimal_def split_sign_def py_strip_def
      strip_chars_def money_chars_def is_cspace_def startswith_def endswith_def is_space_def is_digit_def
      py_lower_def lower_char_def upper_letters_def lower_letters_def dec_val_def digit_val_def Let_def
      b64_numeral)

lemma cash_tokens: "num_findall (py_strip ''Cash $ 10,000 8,000'') = [''$ 10,000'', '' 8,000'']"
  by code_simp

lemma cash_label: "norm_label (py_strip (before_first ''$ 10,000'' (py_strip ''Cash $ 10,000 8,000''))) = ''Cash''"
  by code_simp

lemma cash_resolve: "resolve_label fixture_env ''Cash'' = Some ''cash''"
  by (simp add: resolve_label_def match_canonical_def fixture_env_def falsy_def Let_def
      py_lower_def lower_char_def upper_letters_def lower_letters_def startswith_def)

lemma cash_values: "money_values (filter (list_ex is_digit) [''$ 10,000'', '' 8,000'']) = Inr [Fin 10000, Fin 8000]"
  by (simp add: parse_money_tokens is_digit_def)

lemma fixture_years: "Max (set [2022, 2023 :: int]) = 2023" "Min (set [2022, 2023 :: int]) = 2022"
  by simp_all

theorem two_column_split_witness:
  "lookup_bucket (process_line fixture_env [2022, 2023] 2023 fixture_raw ''Cash $ 10,000 8,000'') 2023 ''cash'' =
     Some (Fin 10000) \<and>
   lookup_bucket (process_line fixture_env [2022, 2023] 2023 fixture_raw ''Cash $ 10,000 8,000'') 2022 ''cash'' =
     Some (Fin 8000)"
proof -
  have l: "''Cash'' = norm_label (py_strip (before_first ''$ 10,000'' (py_strip ''Cash $ 10,000 8,000'')))"
    by (simp only: cash_label)
  have m1: "fixture_raw (Max (set [2022, 2023])) = Some Map.empty"
    and m2: "fixture_raw (Min (set [2022, 2023])) = Some Map.empty"
    by (simp_all add: fixture_raw_def)
  have "process_line fixture_env [2022, 2023] 2023 fixture_raw ''Cash $ 10,000 8,000'' =
      Inr (fixture_raw(Max (set [2022, 2023]) \<mapsto> [''cash'' \<mapsto> [Fin 10000, Fin 8000] ! (length [Fin 10000, Fin 8000] - 2)],
                       Min (set [2022, 2023]) \<mapsto> [''cash'' \<mapsto> last [Fin 10000, Fin 8000]]))"
    by (rule two_column_split [OF cash_tokens l _ cash_resolve _ cash_values _ _ _ m1 m2, THEN conjunct1])
       simp_all
  then show ?thesis by (simp add: lookup_bucket_def)
qed

lemma cash3_tokens: "num_findall (py_strip ''Cash 5 10,000 8,000'') = ['' 5'', '' 10,000'', '' 8,000'']"
  by code_simp

lemma cash3_label: "norm_label (py_strip (before_first '' 5'' (py_strip ''Cash 5 10,000 8,000''))) = ''Cash''"
  by code_simp

lemma cash3_values:
  "money_values (filter (list_ex is_digit) ['' 5'', '' 10,000'', '' 8,000'']) = Inr [Fin 5, Fin 10000, Fin 8000]"
  by (simp add: parse_money_tokens is_digit_def)

text \<open>
  C1 as stated (the first two values) fails on a line with three values: with the years 2022
  and 2023 the line \<^verbatim>\<open>Cash 5 10,000 8,000\<close> yields 5, 10000 and 8000; 10000 is written under
  2023 and 8000 under 2022, and the first value 5 is written nowhere.
\<close>

theorem first_two_values_counterexample:
  "money_values (filter (list_ex is_digit) (num_findall (py_strip ''Cash 5 10,000 8,000''))) = Inr [Fin 5, Fin 10000, Fin 8000] \<and>
   lookup_bucket (process_line fixture_env [2022, 2023] 2023 fixture_raw ''Cash 5 10,000 8,000'') 2023 ''cash'' =
     Some (Fin 10000) \<and>
   lookup_bucket (process_line fixture_env [2022, 2023] 2023 fixture_raw ''Cash 5 10,000 8,000'') 2022 ''cash'' =
     Some (Fin 8000) \<and>
   lookup_bucket (process_line fixture_env [2022, 2023] 2023 fixture_raw ''Cash 5 10,000 8,000'') 2023 ''cash'' \<noteq>
     Some (Fin 5) \<and>
   lookup_bucket (process_line fixture_env [2022, 2023] 2023 fixture_raw ''Cash 5 10,000 8,000'') 2022 ''cash'' \<noteq>
     Some (Fin 10000)"
proof -
  have l: "''Cash'' = norm_label (py_strip (before_first '' 5'' (py_strip ''Cash 5 10,000 8,000'')))"
    by (simp only: cash3_label)
  have m1: "fixture_raw (Max (set [2022, 2023])) = Some Map.empty"
    and m2: "fixture_raw (Min (set [2022, 2023])) = Some Map.empty"
    by (simp_all add: fixture_raw_def)
  have "process_line fixture_env [2022, 2023] 2023 fixture_raw ''Cash 5 10,000 8,000'' =
      Inr (fixture_raw(Max (set [2022, 2023]) \<mapsto> [''cash'' \<mapsto> [Fin 5, Fin 10000, Fin 8000] ! (length [Fin 5, Fin 10000, Fin 8000] - 2)],
                       Min (set [2022, 2023]) \<mapsto> [''cash'' \<mapsto> last [Fin 5, Fin 10000, Fin 8000]]))"
    by (rule two_columns [OF cash3_tokens l _ cash_resolve _ cash3_values _ _ _ m1 m2]) simp_all
  then have a: "lookup_bucket (process_line fixture_env [2022, 2023] 2023 fixture_raw ''Cash 5 10,000 8,000'') 2023 ''cash'' =
     Some (Fin 10000)"
    and b: "lookup_bucket (process_line fixture_env [2022, 2023] 2023 fixture_raw ''Cash 5 10,000 8,000'') 2022 ''cash'' =
     Some (Fin 8000)"
    by (simp_all add: lookup_bucket_def)
  have v: "money_values (filter (list_ex is_digit) (num_findall (py_strip ''Cash 5 10,000 8,000''))) =
      Inr [Fin 5, Fin 10000, Fin 8000]"
    by (simp only: cash3_tokens cash3_values)
  show ?thesis using v a b by simp
qed

section \<open>Properties of year detection\<close>

lemma year_tok_cases:
  "year_tok tok \<longleftrightarrow> (\<exists>a b c d. tok = [a, b, c, d] \<and>
      ((a = CHR ''1'' \<and> b = CHR ''9'') \<or> (a = CHR ''2'' \<and> b = CHR ''0'')) \<and> is_digit c \<and> is_digit d)"
proof
  assume y: "year_tok tok"
  then have "length tok = 4" by (simp add: year_tok_def)
  then obtain a b c d where t: "tok = [a, b, c, d]"
    by (cases tok; cases "tl tok"; cases "tl (tl tok)"; cases "tl (tl (tl tok))") auto
  with y show "\<exists>a b c d. tok = [a, b, c, d] \<and>
      ((a = CHR ''1'' \<and> b = CHR ''9'') \<or> (a = CHR ''2'' \<and> b = CHR ''0'')) \<and> is_digit c \<and> is_digit d"
    by (auto simp: year_tok_def)
next
  assume "\<exists>a b c d. tok = [a, b, c, d] \<and>
      ((a = CHR ''1'' \<and> b = CHR ''9'') \<or> (a = CHR ''2'' \<and> b = CHR ''0'')) \<and> is_digit c \<and> is_digit d"
  then show "year_tok tok" by (auto simp: year_tok_def)
qed

lemma year_at_iff:
  "year_at s \<longleftrightarrow> (\<exists>tok suf. s = tok @ suf \<and> year_tok tok \<and> (suf = [] \<or> \<not> is_word (hd suf)))"
proof
  assume "year_at s"
  then obtain a b c d rest where s: "s = a # b # c # d # rest"
    by (cases s rule: year_at.cases) auto
  with \<open>year_at s\<close> have "year_tok [a, b, c, d]" "rest = [] \<or> \<not> is_word (hd rest)"
    by (auto simp: year_tok_cases split: list.splits)
  with s show "\<exists>tok suf. s = tok @ suf \<and> year_tok tok \<and> (suf = [] \<or> \<not> is_word (hd suf))"
    by (intro exI [of _ "[a, b, c, d]"] exI [of _ rest]) simp
next
  assume "\<exists>tok suf. s = tok @ suf \<and> year_tok tok \<and> (suf = [] \<or> \<not> is_word (hd suf))"
  then show "year_at s" by (auto simp: year_tok_cases split: list.splits)
qed

lemma year_tok_word: "year_tok tok \<Longrightarrow> c \<in> set tok \<Longrightarrow> is_word c"
  by (auto simp: year_tok_cases is_word_def is_digit_def)

lemma occurs_Nil: "\<not> occurs pw [] tok"
  by (auto simp: occurs_def year_tok_def)

lemma occurs_skip:
  assumes "\<not> (\<not> pw \<and> year_at (c # cs))"
  shows "occurs pw (c # cs) tok \<longleftrightarrow> occurs (is_word c) cs tok"
proof
  assume "occurs pw (c # cs) tok"
  then obtain pre suf where d: "c # cs = pre @ tok @ suf" "year_tok tok"
    "if pre = [] then \<not> pw else \<not> is_word (last pre)" "suf = [] \<or> \<not> is_word (hd suf)"
    by (auto simp: occurs_def)
  have "pre \<noteq> []"
  proof
    assume "pre = []"
    with d have "\<not> pw" "year_at (c # cs)" by (auto simp: year_at_iff)
    with assms show False by simp
  qed
  then obtain pre' where p: "pre = c # pre'" using d(1) by (cases pre) auto
  with d show "occurs (is_word c) cs tok"
    unfolding occurs_def by (intro exI [of _ pre'] exI [of _ suf]) (auto split: if_splits)
next
  assume "occurs (is_word c) cs tok"
  then obtain pre suf where d: "cs = pre @ tok @ suf" "year_tok tok"
    "if pre = [] then \<not> is_word c else \<not> is_word (last pre)" "suf = [] \<or> \<not> is_word (hd suf)"
    by (auto simp: occurs_def)
  then show "occurs pw (c # cs) tok"
    unfolding occurs_def by (intro exI [of _ "c # pre"] exI [of _ suf]) (auto split: if_splits)
qed

lemma occurs_match:
  assumes "\<not> pw" "year_at (c # cs)"
  shows "occurs pw (c # cs) tok \<longleftrightarrow> tok = take 4 (c # cs) \<or> occurs True (drop 3 cs) tok"
proof -
  from assms(2) obtain y rest where y: "c # cs = y @ rest" "year_tok y" "rest = [] \<or> \<not> is_word (hd rest)"
    by (auto simp: year_at_iff)
  then have ly: "length y = 4" by (simp add: year_tok_def)
  have t4: "take 4 (c # cs) = y" using y(1) ly by simp
  have d3: "drop 3 cs = rest"
  proof -
    have "drop 4 (c # cs) = rest" using y(1) ly by simp
    then show ?thesis by simp
  qed
  show ?thesis
  proof
    assume "occurs pw (c # cs) tok"
    then obtain pre suf where d: "c # cs = pre @ tok @ suf" "year_tok tok"
      "if pre = [] then \<not> pw else \<not> is_word (last pre)" "suf = [] \<or> \<not> is_word (hd suf)"
      by (auto simp: occurs_def)
    show "tok = take 4 (c # cs) \<or> occurs True (drop 3 cs) tok"
    proof (cases "pre = []")
      case True
      with d have "take 4 (c # cs) = tok" by (simp add: year_tok_def)
      then show ?thesis by simp
    next
      case False
      then have nl: "\<not> is_word (last pre)" using d(3) by simp
      have "4 < length pre"
      proof (rule ccontr)
        assume "\<not> 4 < length pre"
        then have le: "length pre \<le> 4" by simp
        have "pre = take (length pre) (y @ rest)" using d(1) y(1) by (metis append_eq_conv_conj)
        then have "pre = take (length pre) y" using le ly by simp
        then have "set pre \<subseteq> set y" by (metis set_take_subset)
        then have "last pre \<in> set y" using False by auto
        with y(2) have "is_word (last pre)" by (rule year_tok_word)
        with nl show False by simp
      qed
      then obtain pre' where p: "pre = y @ pre'" "pre' \<noteq> []"
        using d(1) y(1) ly
        by (metis append_eq_append_conv_if append_take_drop_id drop_eq_Nil leD length_append less_or_eq_imp_le)
      then have "rest = pre' @ tok @ suf" using d(1) y(1) by simp
      moreover have "last pre' = last pre" using p by simp
      ultimately have "occurs True rest tok"
        unfolding occurs_def using d(2,4) nl p(2)
        by (intro exI [of _ pre'] exI [of _ suf]) simp
      then show ?thesis by (simp add: d3)
    qed
  next
    assume a: "tok = take 4 (c # cs) \<or> occurs True (drop 3 cs) tok"
    show "occurs pw (c # cs) tok"
    proof (cases "tok = take 4 (c # cs)")
      case True
      then have "tok = y" using t4 by simp
      then show ?thesis unfolding occurs_def using y assms(1)
        by (intro exI [of _ "[]"] exI [of _ rest]) simp
    next
      case False
      with a have "occurs True rest tok" by (simp add: d3)
      then obtain pre suf where d: "rest = pre @ tok @ suf" "year_tok tok"
        "pre \<noteq> []" "\<not> is_word (last pre)" "suf = [] \<or> \<not> is_word (hd suf)"
        by (auto simp: occurs_def split: if_splits)
      then show ?thesis unfolding occurs_def using y(1)
        by (intro exI [of _ "y @ pre"] exI [of _ suf]) simp
    qed
  qed
qed

lemma year_findall_iff: "tok \<in> set (year_findall pw s) \<longleftrightarrow> occurs pw s tok"
proof (induction pw s rule: year_findall.induct)
  case (1 pw)
  then show ?case by (simp add: occurs_Nil)
next
  case (2 pw c cs)
  show ?case
  proof (cases "\<not> pw \<and> year_at (c # cs)")
    case True
    then have "occurs pw (c # cs) tok \<longleftrightarrow> tok = take 4 (c # cs) \<or> occurs True (drop 3 cs) tok"
      by (intro occurs_match) simp_all
    moreover have "tok \<in> set (year_findall True (drop 3 cs)) \<longleftrightarrow> occurs True (drop 3 cs) tok"
      using True by (intro "2.IH"(1)) simp_all
    ultimately show ?thesis using True by (simp del: year_at.simps)
  next
    case False
    then have "occurs pw (c # cs) tok \<longleftrightarrow> occurs (is_word c) cs tok"
      by (rule occurs_skip)
    moreover have "tok \<in> set (year_findall (is_word c) cs) \<longleftrightarrow> occurs (is_word c) cs tok"
      using False by (intro "2.IH"(2)) simp_all
    moreover have "year_findall pw (c # cs) = year_findall (is_word c) cs"
      by (simp only: year_findall.simps if_not_P [OF False])
    ultimately show ?thesis by simp
  qed
qed

lemma digit_val_bound: "is_digit c \<Longrightarrow> digit_val c \<le> 9"
  by (auto simp: is_digit_def digit_val_def)

lemma digit_val_inj:
  assumes "is_digit c"
  shows "digit_val c = 0 \<longleftrightarrow> c = CHR ''0''" "digit_val c = 1 \<longleftrightarrow> c = CHR ''1''"
    "digit_val c = 2 \<longleftrightarrow> c = CHR ''2''" "digit_val c = 9 \<longleftrightarrow> c = CHR ''9''"
  using assms by (auto simp: is_digit_def digit_val_def)

lemma dec_val_4: "dec_val [a, b, c, d] = 1000 * digit_val a + 100 * digit_val b + 10 * digit_val c + digit_val d"
  by (simp add: dec_val_def)

lemma year_digits_of_range:
  fixes A B C D :: nat
  assumes "1900 \<le> 1000 * A + 100 * B + 10 * C + D" "1000 * A + 100 * B + 10 * C + D \<le> 2099"
    "A \<le> 9" "B \<le> 9" "C \<le> 9" "D \<le> 9"
  shows "(A = 1 \<and> B = 9) \<or> (A = 2 \<and> B = 0)"
proof -
  have "A = 1 \<or> A = 2" using assms by linarith
  then show ?thesis
  proof
    assume "A = 1"
    then have "B = 9" using assms by linarith
    with \<open>A = 1\<close> show ?thesis by simp
  next
    assume "A = 2"
    then have "B = 0" using assms by linarith
    with \<open>A = 2\<close> show ?thesis by simp
  qed
qed

lemma range_of_year_digits:
  fixes A B C D :: nat
  assumes "(A = 1 \<and> B = 9) \<or> (A = 2 \<and> B = 0)" "C \<le> 9" "D \<le> 9"
  shows "1900 \<le> 1000 * A + 100 * B + 10 * C + D \<and> 1000 * A + 100 * B + 10 * C + D \<le> 2099"
  using assms by auto

lemma year_tok_range:
  "year_tok tok \<longleftrightarrow> length tok = 4 \<and> list_all is_digit tok \<and> 1900 \<le> dec_val tok \<and> dec_val tok \<le> 2099"
proof
  assume "year_tok tok"
  then obtain a b c d where t: "tok = [a, b, c, d]"
    "(a = CHR ''1'' \<and> b = CHR ''9'') \<or> (a = CHR ''2'' \<and> b = CHR ''0'')" "is_digit c" "is_digit d"
    by (auto simp: year_tok_cases)
  have "digit_val c \<le> 9" "digit_val d \<le> 9" using t(3,4) by (simp_all add: digit_val_bound)
  moreover have "is_digit a" "is_digit b" using t(2) by (auto simp: is_digit_def)
  moreover have "(digit_val a = 1 \<and> digit_val b = 9) \<or> (digit_val a = 2 \<and> digit_val b = 0)"
    using t(2) by (auto simp: digit_val_def)
  ultimately have "1900 \<le> 1000 * digit_val a + 100 * digit_val b + 10 * digit_val c + digit_val d \<and>
      1000 * digit_val a + 100 * digit_val b + 10 * digit_val c + digit_val d \<le> 2099"
    and "list_all is_digit [a, b, c, d]"
    using t(3,4) by (simp_all add: range_of_year_digits)
  then show "length tok = 4 \<and> list_all is_digit tok \<and> 1900 \<le> dec_val tok \<and> dec_val tok \<le> 2099"
    unfolding t(1) dec_val_4 by simp
next
  assume r: "length tok = 4 \<and> list_all is_digit tok \<and> 1900 \<le> dec_val tok \<and> dec_val tok \<le> 2099"
  then obtain a b c d where t: "tok = [a, b, c, d]"
    by (cases tok; cases "tl tok"; cases "tl (tl tok)"; cases "tl (tl (tl tok))") auto
  with r have dg: "is_digit a" "is_digit b" "is_digit c" "is_digit d" by simp_all
  from r have rg: "1900 \<le> 1000 * digit_val a + 100 * digit_val b + 10 * digit_val c + digit_val d"
    "1000 * digit_val a + 100 * digit_val b + 10 * digit_val c + digit_val d \<le> 2099"
    unfolding t dec_val_4 by simp_all
  have bd: "digit_val a \<le> 9" "digit_val b \<le> 9" "digit_val c \<le> 9" "digit_val d \<le> 9"
    using dg by (simp_all add: digit_val_bound)
  from rg bd have "(digit_val a = 1 \<and> digit_val b = 9) \<or> (digit_val a = 2 \<and> digit_val b = 0)"
    by (rule year_digits_of_range)
  then have "(a = CHR ''1'' \<and> b = CHR ''9'') \<or> (a = CHR ''2'' \<and> b = CHR ''0'')"
    by (simp only: digit_val_inj [OF dg(1)] digit_val_inj [OF dg(2)])
  then show "year_tok tok" using t dg(3,4) by (auto simp: year_tok_cases)
qed

lemma occurs_year_tokens:
  "y \<in> year_tokens s \<longleftrightarrow> (\<exists>tok. occurs False s tok \<and> y = int (dec_val tok))"
proof
  assume "y \<in> year_tokens s"
  then obtain pre tok suf where d: "s = pre @ tok @ suf" "length tok = 4" "list_all is_digit tok"
    "pre = [] \<or> \<not> is_word (last pre)" "suf = [] \<or> \<not> is_word (hd suf)"
    "y = int (dec_val tok)" "1900 \<le> y" "y \<le> 2099"
    unfolding year_tokens_def by blast
  from d(6,7,8) have "1900 \<le> dec_val tok" "dec_val tok \<le> 2099" by simp_all
  with d(2,3) have "year_tok tok" by (simp add: year_tok_range)
  with d(1,4,5) have "occurs False s tok"
    unfolding occurs_def by (intro exI [of _ pre] exI [of _ suf]) auto
  with d(6) show "\<exists>tok. occurs False s tok \<and> y = int (dec_val tok)" by blast
next
  assume "\<exists>tok. occurs False s tok \<and> y = int (dec_val tok)"
  then obtain tok pre suf where d: "s = pre @ tok @ suf" "year_tok tok"
    "if pre = [] then \<not> False else \<not> is_word (last pre)" "suf = [] \<or> \<not> is_word (hd suf)"
    "y = int (dec_val tok)"
    unfolding occurs_def by blast
  from d(2) have r: "length tok = 4" "list_all is_digit tok" "1900 \<le> dec_val tok" "dec_val tok \<le> 2099"
    by (simp_all add: year_tok_range)
  have p: "pre = [] \<or> \<not> is_word (last pre)" using d(3) by (cases "pre = []") simp_all
  have "1900 \<le> y" "y \<le> 2099" using r(3,4) d(5) by simp_all
  with d(1,4,5) r(1,2) p show "y \<in> year_tokens s"
    unfolding year_tokens_def by blast
qed

lemma set_page_years: "set (page_years s) = year_tokens s"
proof (rule set_eqI)
  fix y
  have "y \<in> set (page_years s) \<longleftrightarrow> (\<exists>tok. tok \<in> set (year_findall False s) \<and> y = int (dec_val tok))"
    by (auto simp: page_years_def YEAR_RE_findall_def)
  then show "y \<in> set (page_years s) \<longleftrightarrow> y \<in> year_tokens s"
    by (simp only: year_findall_iff occurs_year_tokens)
qed

text \<open>
  C5. The detected years of a document text are exactly the values of its 4-digit tokens in
  the range 1900 to 2099, without repetition and in ascending order; when there is none, the
  list is the single year of the detected period or, without a period, the current calendar
  year.
\<close>

theorem detect_years_spec:
  "set (detect_years E text period) =
     (if year_tokens text = {} then {case period of Some p \<Rightarrow> year p | None \<Rightarrow> today_year E}
      else year_tokens text) \<and>
   sorted (detect_years E text period) \<and> distinct (detect_years E text period)"
proof (cases "year_tokens text = {}")
  case True
  then have "page_years text = []" using set_page_years [of "text"] by simp
  then show ?thesis using True by (simp add: detect_years_def)
next
  case False
  then have "sort (remdups (page_years text)) \<noteq> []"
    using set_page_years [of "text"] by (metis set_empty set_remdups set_sort)
  then show ?thesis using False set_page_years [of "text"] by (simp add: detect_years_def Let_def)
qed

lemma fixture_detect_years:
  "detect_years fixture_env ''As at 2023 and 2022, FY2021'' None = [2022, 2023]"
  by code_simp

theorem detect_years_spec_witness:
  "year_tokens ''As at 2023 and 2022, FY2021'' = {2022, 2023} \<and>
   detect_years fixture_env ''As at 2023 and 2022, FY2021'' None = [2022, 2023]"
proof -
  have "{2022, 2023 :: int} =
      (if year_tokens ''As at 2023 and 2022, FY2021'' = {} then {case None of Some p \<Rightarrow> year p | None \<Rightarrow> today_year fixture_env}
       else year_tokens ''As at 2023 and 2022, FY2021'')"
    using detect_years_spec [of fixture_env "''As at 2023 and 2022, FY2021''" None]
    unfolding fixture_detect_years by simp
  then have "year_tokens ''As at 2023 and 2022, FY2021'' = {2022, 2023}"
    by (cases "year_tokens ''As at 2023 and 2022, FY2021'' = {}") (auto simp: fixture_env_def)
  then show ?thesis by (simp add: fixture_detect_years)
qed


section \<open>The keys of the year buckets\<close>

lemma not_word_LF: "\<not> is_word (CHR 0x0A)"
  by (simp add: is_word_def is_digit_def lower_letters_def upper_letters_def)

lemma join_nl_split:
  "t \<in> set pages \<Longrightarrow>
     \<exists>A B. join_nl pages = A @ t @ B \<and> (A = [] \<or> last A = CHR 0x0A) \<and> (B = [] \<or> hd B = CHR 0x0A)"
proof (induction pages rule: join_nl.induct)
  case 1
  then show ?case by simp
next
  case (2 p)
  then show ?case by (intro exI [of _ "[]"]) simp
next
  case (3 p q ps)
  show ?case
  proof (cases "t = p")
    case True
    then show ?thesis
      by (intro exI [of _ "[]"] exI [of _ "CHR 0x0A # join_nl (q # ps)"]) simp
  next
    case False
    with 3 obtain A B where ab: "join_nl (q # ps) = A @ t @ B"
      "A = [] \<or> last A = CHR 0x0A" "B = [] \<or> hd B = CHR 0x0A"
      by auto
    then show ?thesis
      by (intro exI [of _ "p @ CHR 0x0A # A"] exI [of _ B]) auto
  qed
qed

lemma occurs_join:
  assumes "t \<in> set pages" "occurs False t tok"
  shows "occurs False (join_nl pages) tok"
proof -
  from join_nl_split [OF assms(1)] obtain A B where ab: "join_nl pages = A @ t @ B"
    "A = [] \<or> last A = CHR 0x0A" "B = [] \<or> hd B = CHR 0x0A"
    by blast
  from assms(2) obtain pre suf where d: "t = pre @ tok @ suf" "year_tok tok"
    "pre = [] \<or> \<not> is_word (last pre)" "suf = [] \<or> \<not> is_word (hd suf)"
    unfolding occurs_def by (metis (full_types))
  have 1: "join_nl pages = (A @ pre) @ tok @ (suf @ B)" using ab(1) d(1) by simp
  have 2: "if A @ pre = [] then \<not> False else \<not> is_word (last (A @ pre))"
    using ab(2) d(3) not_word_LF by (cases "pre = []") auto
  have 3: "suf @ B = [] \<or> \<not> is_word (hd (suf @ B))"
    using ab(3) d(4) not_word_LF by (cases "suf = []") auto
  show ?thesis unfolding occurs_def
    using 1 2 3 d(2) by (intro exI [of _ "A @ pre"] exI [of _ "suf @ B"]) simp
qed

lemma page_years_join:
  assumes "t \<in> set pages"
  shows "set (page_years t) \<subseteq> set (page_years (join_nl pages))"
proof
  fix y assume "y \<in> set (page_years t)"
  then obtain tok where "occurs False t tok" "y = int (dec_val tok)"
    unfolding set_page_years occurs_year_tokens by blast
  then have "occurs False (join_nl pages) tok \<and> y = int (dec_val tok)"
    using occurs_join [OF assms] by simp
  then show "y \<in> set (page_years (join_nl pages))"
    unfolding set_page_years occurs_year_tokens by blast
qed

lemma set_item_dom:
  "set_item raw y k v = Inr raw' \<Longrightarrow> dom raw' = dom raw"
  by (auto simp: set_item_def split: option.splits if_splits)

lemma set_item_ok:
  "y \<in> dom raw \<Longrightarrow> \<exists>raw'. set_item raw y k v = Inr raw'"
  by (auto simp: set_item_def)

lemma accumulate_dom:
  assumes "set years \<subseteq> dom raw" "ctx \<in> dom raw" "years \<noteq> []"
  shows "\<exists>raw'. accumulate years ctx raw k vs = Inr raw' \<and> dom raw' = dom raw"
proof (cases "2 \<le> length vs \<and> 2 \<le> length years")
  case True
  have "Max (set years) \<in> set years" "Min (set years) \<in> set years"
    using assms(3) by (simp_all only: Max_in Min_in finite_set set_empty not_False_eq_True)
  then have mx: "Max (set years) \<in> dom raw" and mn: "Min (set years) \<in> dom raw"
    using assms(1) by auto
  from set_item_ok [OF mx] obtain raw1 where
    r1: "set_item raw (Max (set years)) k (vs ! (length vs - 2)) = Inr raw1"
    by blast
  then have d1: "dom raw1 = dom raw" by (rule set_item_dom)
  with mn have "Min (set years) \<in> dom raw1" by simp
  from set_item_ok [OF this] obtain raw2 where
    r2: "set_item raw1 (Min (set years)) k (last vs) = Inr raw2"
    by blast
  then have "dom raw2 = dom raw" using d1 by (simp add: set_item_dom)
  then show ?thesis using True r1 r2
    by (simp add: accumulate_def Let_def py_max_Max [OF assms(3)] py_min_Min [OF assms(3)])
next
  case False
  from set_item_ok [OF assms(2)] obtain raw1 where r1: "set_item raw ctx k (last vs) = Inr raw1"
    by blast
  then have "dom raw1 = dom raw" by (rule set_item_dom)
  then show ?thesis using False r1 by (auto simp: accumulate_def)
qed

lemma py_float_error: "py_float s = Inl e \<Longrightarrow> e = ValueError"
  by (auto simp: py_float_def Let_def split: if_splits option.splits)

lemma parse_money_error: "parse_money s = Inl e \<Longrightarrow> e = ValueError"
  by (auto simp: parse_money_def Let_def split: if_splits sum.splits dest: py_float_error)

lemma money_values_error: "money_values xs = Inl e \<Longrightarrow> e = ValueError"
  by (induction xs) (auto split: sum.splits dest: parse_money_error)

lemma process_line_dom:
  assumes "set years \<subseteq> dom raw" "ctx \<in> dom raw" "years \<noteq> []"
  shows "process_line E years ctx raw line = Inl ValueError \<or>
         (\<exists>raw'. process_line E years ctx raw line = Inr raw' \<and> dom raw' = dom raw)"
proof -
  have "accumulate years ctx raw k vs = Inl ValueError \<or>
        (\<exists>raw'. accumulate years ctx raw k vs = Inr raw' \<and> dom raw' = dom raw)" for k vs
    using accumulate_dom [OF assms] by blast
  then show ?thesis
    by (auto simp: process_line_def Let_def simp del: money_values.simps
        split: list.splits option.splits sum.splits dest: money_values_error)
qed

lemma process_lines_dom:
  assumes "set years \<subseteq> dom raw" "ctx \<in> dom raw" "years \<noteq> []"
  shows "process_lines E years ctx raw ls = Inl ValueError \<or>
         (\<exists>raw'. process_lines E years ctx raw ls = Inr raw' \<and> dom raw' = dom raw)"
  using assms
proof (induction ls arbitrary: raw)
  case Nil
  then show ?case by simp
next
  case (Cons l ls)
  from process_line_dom [OF Cons.prems, of E l] show ?case
  proof
    assume "process_line E years ctx raw l = Inl ValueError"
    then show ?thesis by simp
  next
    assume "\<exists>raw'. process_line E years ctx raw l = Inr raw' \<and> dom raw' = dom raw"
    then obtain raw1 where r1: "process_line E years ctx raw l = Inr raw1" "dom raw1 = dom raw"
      by blast
    with Cons.prems have "set years \<subseteq> dom raw1" "ctx \<in> dom raw1" by simp_all
    from Cons.IH [OF this Cons.prems(3)] r1 show ?thesis by auto
  qed
qed

lemma process_pages_dom:
  assumes "dom raw = set years" "ctx \<in> set years" "years \<noteq> []"
    "\<forall>t\<in>set ts. set (page_years t) \<subseteq> set years"
  shows "process_pages E years ctx raw ts = Inl ValueError \<or>
         (\<exists>raw'. process_pages E years ctx raw ts = Inr raw' \<and> dom raw' = set years)"
  using assms
proof (induction ts arbitrary: raw ctx)
  case Nil
  then show ?case by simp
next
  case (Cons t ts)
  define ctx' where "ctx' = (if page_years t = [] then ctx else Max (set (page_years t)))"
  have c: "(if page_years t = [] then Inr ctx else py_max (page_years t)) = Inr ctx'"
    by (simp add: ctx'_def py_max_Max)
  have "page_years t \<noteq> [] \<Longrightarrow> Max (set (page_years t)) \<in> set (page_years t)"
    by (intro Max_in) simp_all
  then have in': "ctx' \<in> set years" using Cons.prems(2,4) by (auto simp: ctx'_def)
  have "set years \<subseteq> dom raw" "ctx' \<in> dom raw" using Cons.prems(1) in' by simp_all
  from process_lines_dom [OF this Cons.prems(3), of E "splitlines t"] show ?case
  proof
    assume "process_lines E years ctx' raw (splitlines t) = Inl ValueError"
    then show ?thesis using c by simp
  next
    assume "\<exists>raw'. process_lines E years ctx' raw (splitlines t) = Inr raw' \<and> dom raw' = dom raw"
    then obtain raw1 where r1: "process_lines E years ctx' raw (splitlines t) = Inr raw1" "dom raw1 = set years"
      using Cons.prems(1) by auto
    from Cons.IH [OF r1(2) in' Cons.prems(3)] Cons.prems(4) r1 c show ?thesis by auto
  qed
qed

lemma py_date_error: "py_date y m d = Inl e \<Longrightarrow> e = ValueError"
  by (auto simp: py_date_def split: if_splits)

lemma extract_error: "extract_company_and_period E t = Inl e \<Longrightarrow> e = ValueError"
  by (auto simp: extract_company_and_period_def Let_def split: option.splits sum.splits dest: py_date_error)

lemma detect_meta_error: "detect_meta E c p ts = Inl e \<Longrightarrow> e = ValueError"
proof (induction ts arbitrary: c p)
  case Nil
  then show ?case by simp
next
  case (Cons t ts)
  show ?case
  proof (cases "falsy c \<or> p = None")
    case True
    show ?thesis
    proof (cases "extract_company_and_period E t")
      case (Inl e')
      with Cons.prems True have "e = e'" by simp
      with Inl show ?thesis by (simp add: extract_error)
    next
      case (Inr cp)
      with Cons.prems True show ?thesis by (auto dest: Cons.IH)
    qed
  next
    case False
    with Cons.prems show ?thesis by (auto dest: Cons.IH)
  qed
qed

lemma detect_years_nonempty: "detect_years E s p \<noteq> []"
  by (simp add: detect_years_def Let_def)

lemma page_years_detect:
  assumes "t \<in> set pages"
  shows "set (page_years t) \<subseteq> set (detect_years E (join_nl pages) p)"
proof (cases "page_years (join_nl pages) = []")
  case True
  with page_years_join [OF assms] show ?thesis by simp
next
  case False
  then have "sort (remdups (page_years (join_nl pages))) \<noteq> []"
    by (metis set_empty set_remdups set_sort)
  then have "set (detect_years E (join_nl pages) p) = set (page_years (join_nl pages))"
    by (simp add: detect_years_def Let_def)
  with page_years_join [OF assms] show ?thesis by simp
qed

text \<open>
  C10. No run ends in a KeyError, and the keys of the year buckets a run returns are exactly
  the detected years: every write goes to the largest year, the smallest year or the current
  year context, and the context is a year of the page at hand, which is a year of the whole
  text.
\<close>

theorem year_bucket_keys:
  "parse_pdf_to_year_buckets E pages \<noteq> Inl KeyError \<and>
   (\<forall>c p cur raw. parse_pdf_to_year_buckets E pages = Inr (c, p, cur, raw) \<longrightarrow>
      dom raw = set (detect_years E (join_nl pages) p))"
proof (cases "detect_meta E None None pages")
  case (Inl e)
  then have "e = ValueError" by (rule detect_meta_error)
  with Inl show ?thesis by (simp add: parse_pdf_to_year_buckets_def)
next
  case (Inr cp)
  define years where "years = detect_years E (join_nl pages) (snd cp)"
  define raw0 :: buckets where "raw0 = (\<lambda>y. if y \<in> set years then Some Map.empty else None)"
  have ne: "years \<noteq> []" by (simp add: years_def detect_years_nonempty)
  then have mx: "py_max years = Inr (Max (set years))" by (rule py_max_Max)
  have d0: "dom raw0 = set years" by (auto simp: raw0_def split: if_splits)
  have c0: "Max (set years) \<in> set years" using ne by (intro Max_in) simp_all
  have sub: "\<forall>t\<in>set pages. set (page_years t) \<subseteq> set years"
    unfolding years_def by (simp add: page_years_detect)
  have eq: "parse_pdf_to_year_buckets E pages =
      (case process_pages E years (Max (set years)) raw0 pages of
         Inl e \<Rightarrow> Inl e
       | Inr raw' \<Rightarrow> Inr (if falsy (fst cp) then ''UNKNOWN'' else the (fst cp), snd cp,
                           detect_currency (join_nl pages), raw'))"
    using Inr mx by (simp add: parse_pdf_to_year_buckets_def Let_def years_def raw0_def)
  from process_pages_dom [OF d0 c0 ne sub, of E] show ?thesis
  proof
    assume "process_pages E years (Max (set years)) raw0 pages = Inl ValueError"
    then show ?thesis by (simp add: eq)
  next
    assume "\<exists>raw'. process_pages E years (Max (set years)) raw0 pages = Inr raw' \<and> dom raw' = set years"
    then obtain raw' where r: "process_pages E years (Max (set years)) raw0 pages = Inr raw'"
      "dom raw' = set (detect_years E (join_nl pages) (snd cp))"
      unfolding years_def by blast
    from r(1) have "parse_pdf_to_year_buckets E pages =
        Inr (if falsy (fst cp) then ''UNKNOWN'' else the (fst cp), snd cp, detect_currency (join_nl pages), raw')"
      by (simp add: eq)
    then show ?thesis using r(2) by simp
  qed
qed

lemma process_line_skip:
  assumes "num_findall (py_strip line) = n0 # ns"
    and "resolve_label E (norm_label (py_strip (before_first n0 (py_strip line)))) = None"
  shows "process_line E years ctx raw line = Inr raw"
  using assms by (simp add: process_line_def Let_def)

lemma page_meta: "extract_company_and_period fixture_env fixture_page = Inr (None, None)"
  by code_simp

lemma page_lines: "splitlines fixture_page = [''As at 2023 and 2022'', ''Cash $ 10,000 8,000'']"
  by code_simp

lemma page_page_years: "page_years fixture_page = [2023, 2022]"
  by code_simp

lemma page_years_detected: "detect_years fixture_env fixture_page None = [2022, 2023]"
  by code_simp

lemma page_currency: "detect_currency fixture_page = ''AUTO''"
  by code_simp

lemma heading_tokens: "num_findall (py_strip ''As at 2023 and 2022'') = ['' 202'', ''3'', '' 202'', ''2'']"
  by code_simp

lemma heading_label: "norm_label (py_strip (before_first '' 202'' (py_strip ''As at 2023 and 2022''))) = ''As at''"
  by code_simp

lemma page_meta2: "extract_company_and_period fixture_env_regex fixture_page = Inr (None, None)"
  by code_simp

lemma page_years_detected2: "detect_years fixture_env_regex fixture_page None = [2022, 2023]"
  by code_simp

lemma heading_resolve: "resolve_label fixture_env_regex ''As at'' = None"
  by (simp add: resolve_label_def match_canonical_def fixture_env_regex_def fixture_env_def falsy_def Let_def
      change_map_def py_lower_def lower_char_def upper_letters_def lower_letters_def startswith_def)

lemma cash_resolve2: "resolve_label fixture_env_regex ''Cash'' = Some ''cash''"
  by (simp add: resolve_label_def match_canonical_def fixture_env_regex_def fixture_env_def falsy_def Let_def
      py_lower_def lower_char_def upper_letters_def lower_letters_def startswith_def)

lemma parse_pdf_unfold:
  assumes "detect_meta E None None pages = Inr cp"
    and "detect_years E (join_nl pages) (snd cp) = years"
    and "py_max years = Inr ctx"
    and "process_pages E years ctx (\<lambda>y. if y \<in> set years then Some Map.empty else None) pages = Inr raw'"
  shows "parse_pdf_to_year_buckets E pages =
           Inr (if falsy (fst cp) then ''UNKNOWN'' else the (fst cp), snd cp, detect_currency (join_nl pages), raw')"
  using assms by (simp add: parse_pdf_to_year_buckets_def Let_def)

lemma fixture_run:
  "parse_pdf_to_year_buckets fixture_env_regex [fixture_page] =
     Inr (''UNKNOWN'', None, ''AUTO'',
          fixture_raw(2023 \<mapsto> [''cash'' \<mapsto> Fin 10000], 2022 \<mapsto> [''cash'' \<mapsto> Fin 8000]))"
proof -
  have meta: "detect_meta fixture_env_regex None None [fixture_page] = Inr (None, None)"
    by (simp add: page_meta2 falsy_def)
  have l1: "process_line fixture_env_regex [2022, 2023] 2023 fixture_raw ''As at 2023 and 2022'' = Inr fixture_raw"
    by (rule process_line_skip [OF heading_tokens]) (simp only: heading_label heading_resolve)
  have l: "''Cash'' = norm_label (py_strip (before_first ''$ 10,000'' (py_strip ''Cash $ 10,000 8,000'')))"
    by (simp only: cash_label)
  have m1: "fixture_raw (Max (set [2022, 2023])) = Some Map.empty"
    and m2: "fixture_raw (Min (set [2022, 2023])) = Some Map.empty"
    by (simp_all add: fixture_raw_def)
  have "process_line fixture_env_regex [2022, 2023] 2023 fixture_raw ''Cash $ 10,000 8,000'' =
      Inr (fixture_raw(Max (set [2022, 2023]) \<mapsto> [''cash'' \<mapsto> [Fin 10000, Fin 8000] ! (length [Fin 10000, Fin 8000] - 2)],
                       Min (set [2022, 2023]) \<mapsto> [''cash'' \<mapsto> last [Fin 10000, Fin 8000]]))"
    by (rule two_columns [OF cash_tokens l _ cash_resolve2 _ cash_values _ _ _ m1 m2]) simp_all
  then have l2: "process_line fixture_env_regex [2022, 2023] 2023 fixture_raw ''Cash $ 10,000 8,000'' =
      Inr (fixture_raw(2023 \<mapsto> [''cash'' \<mapsto> Fin 10000], 2022 \<mapsto> [''cash'' \<mapsto> Fin 8000]))"
    by simp
  have pages: "process_pages fixture_env_regex [2022, 2023] 2023 fixture_raw [fixture_page] =
      Inr (fixture_raw(2023 \<mapsto> [''cash'' \<mapsto> Fin 10000], 2022 \<mapsto> [''cash'' \<mapsto> Fin 8000]))"
    by (simp add: page_page_years page_lines py_max_def l1 l2)
  have dy: "detect_years fixture_env_regex (join_nl [fixture_page]) (snd (None :: string option, None :: date option)) =
      [2022, 2023]"
    by (simp add: page_years_detected2)
  have mx: "py_max [2022, 2023] = Inr 2023"
    by (simp add: py_max_def)
  have pages': "process_pages fixture_env_regex [2022, 2023] 2023
      (\<lambda>y. if y \<in> set [2022, 2023] then Some Map.empty else None) [fixture_page] =
      Inr (fixture_raw(2023 \<mapsto> [''cash'' \<mapsto> Fin 10000], 2022 \<mapsto> [''cash'' \<mapsto> Fin 8000]))"
    using pages by (simp only: fixture_raw_def)
  have "parse_pdf_to_year_buckets fixture_env_regex [fixture_page] =
      Inr (if falsy (fst (None :: string option, None :: date option)) then ''UNKNOWN''
           else the (fst (None :: string option, None :: date option)),
           snd (None :: string option, None :: date option), detect_currency (join_nl [fixture_page]),
           fixture_raw(2023 \<mapsto> [''cash'' \<mapsto> Fin 10000], 2022 \<mapsto> [''cash'' \<mapsto> Fin 8000]))"
    by (rule parse_pdf_unfold [OF meta dy mx pages'])
  then show ?thesis by (simp add: falsy_def page_currency)
qed

theorem year_bucket_keys_witness:
  "parse_pdf_to_year_buckets fixture_env_regex [fixture_page] =
     Inr (''UNKNOWN'', None, ''AUTO'',
          fixture_raw(2023 \<mapsto> [''cash'' \<mapsto> Fin 10000], 2022 \<mapsto> [''cash'' \<mapsto> Fin 8000])) \<and>
   dom (fixture_raw(2023 \<mapsto> [''cash'' \<mapsto> Fin 10000], 2022 \<mapsto> [''cash'' \<mapsto> Fin 8000])) = {2022, 2023}"
proof -
  have "dom (fixture_raw(2023 \<mapsto> [''cash'' \<mapsto> Fin 10000], 2022 \<mapsto> [''cash'' \<mapsto> Fin 8000])) =
      set (detect_years fixture_env_regex (join_nl [fixture_page]) None)"
    using year_bucket_keys [of fixture_env_regex "[fixture_page]"] fixture_run by blast
  then have "dom (fixture_raw(2023 \<mapsto> [''cash'' \<mapsto> Fin 10000], 2022 \<mapsto> [''cash'' \<mapsto> Fin 8000])) = {2022, 2023}"
    unfolding join_nl.simps page_years_detected2 by auto
  with fixture_run show ?thesis by (rule conjI)
qed

end
